theory Spec2Isabelle
  imports Complex_Main "HOL-Library.Word"
begin

section \<open>Data model of the interpreter component\<close>

text \<open>
  The component \<^verbatim>\<open>Interpreter\<close> of \<^verbatim>\<open>src/components/Interpreter.tsx\<close> is a React
  function component. Its data comes in three kinds, all kept in one record below:
  the React state cells (\<^verbatim>\<open>useState\<close>), the mutable references (\<^verbatim>\<open>useRef\<close>) and the
  browser and network objects the references point to. Objects are kept in lists and a
  reference is an index into its list, so that two references to one object alias.
\<close>

datatype ConnectionState = DISCONNECTED | CONNECTING | CONNECTED | ERROR

datatype role = User | Model | System

text \<open>
  \<^verbatim>\<open>Message\<close> of \<^verbatim>\<open>src/types.ts\<close>. The fields \<^verbatim>\<open>id\<close>, \<^verbatim>\<open>role\<close>, \<^verbatim>\<open>text\<close> and
  \<^verbatim>\<open>timestamp\<close> carry the prefix \<open>m_\<close>; the optional \<^verbatim>\<open>isFinal\<close> is never written by the
  component. A \<^verbatim>\<open>Date\<close> is its number of milliseconds.
\<close>

record Message =
  m_id :: string
  m_role :: role
  m_text :: string
  m_timestamp :: nat

text \<open>
  The four parts of a \<^verbatim>\<open>LiveServerMessage\<close> that \<^verbatim>\<open>handleServerMessage\<close> reads, each
  reached through a chain of \<^verbatim>\<open>?.\<close>, so each may be absent:
  \<^verbatim>\<open>serverContent.modelTurn.parts[0].inlineData.data\<close>,
  \<^verbatim>\<open>serverContent.outputTranscription.text\<close>, \<^verbatim>\<open>serverContent.inputTranscription.text\<close>
  and \<^verbatim>\<open>serverContent.turnComplete\<close>.
\<close>

record LiveServerMessage =
  inlineData :: "string option"
  outputTranscription :: "string option"
  inputTranscription :: "string option"
  turnComplete :: bool

text \<open>A thrown value: an \<^verbatim>\<open>Error\<close> with its \<^verbatim>\<open>message\<close> (empty when it has none).\<close>

datatype error = Error (reason: string)

datatype log_entry = Log string | Warn string | Err string

text \<open>The argument \<^verbatim>\<open>{media: {mimeType, data}}\<close> of \<^verbatim>\<open>sendRealtimeInput\<close>.\<close>

record media =
  mimeType :: string
  data :: string

text \<open>
  \<^verbatim>\<open>isMuted\<close>, \<^verbatim>\<open>isVideoEnabled\<close> and \<^verbatim>\<open>currentTranscription\<close> are \<^verbatim>\<open>const\<close> bindings of one
  call of the component function, that is of one render. A callback is a closure of the
  render that created it and reads that render's values, whatever the state cells hold
  by the time it runs; only the setters and the references reach the present.
  The closures of a session (\<^verbatim>\<open>onopen\<close>, \<^verbatim>\<open>onmessage\<close>, \<^verbatim>\<open>onaudioprocess\<close>) are all
  created by the call of \<^verbatim>\<open>startSession\<close> that opened it.
\<close>

record render =
  r_isMuted :: bool
  r_isVideoEnabled :: bool
  r_currentTranscription :: string

datatype transport_status = Handshake | Open | Closed

text \<open>
  A live session as \<^verbatim>\<open>ai.live.connect\<close> creates it: where its connection stands, whether
  the promise returned by \<^verbatim>\<open>connect\<close> has resolved, the chunks it was given to send, the
  sends still waiting on the promise, and the render of its callbacks.
\<close>

record transport =
  status :: transport_status
  resolved :: bool
  outbox :: "media list"
  waiting :: "media list"
  callbacks :: render

text \<open>
  A \<^verbatim>\<open>Number\<close> is a binary64 floating-point value. A finite one is kept as the rational
  number it stands for; the two infinities are values of their own. \<^verbatim>\<open>NaN\<close> does not
  arise from what the component computes, the maximum of a finite reading and the cursor
  and the sum of a finite start and a finite duration.
\<close>

datatype number = Finite rat | PosInfinity | NegInfinity

text \<open>A \<^verbatim>\<open>ScriptProcessorNode\<close>: connected or not, and the render of its \<^verbatim>\<open>onaudioprocess\<close>.\<close>

record processor =
  connected :: bool
  captured :: render

record state =
  connectionState :: ConnectionState
  isMuted :: bool
  isVideoEnabled :: bool
  messages :: "Message list"
  currentTranscription :: string
  errorMsg :: "string option"
  streamRef :: "nat option"
  sessionRef :: "nat option"
  sessionPromiseRef :: "nat option"
  audioContextRef :: bool
  inputAudioContextRef :: bool
  nextStartTimeRef :: number
  frameIntervalRef :: "nat option"
  processorRef :: "nat option"
  sourceRef :: "nat option"
  streams :: "bool list"
  transports :: "transport list"
  timers :: "bool list"
  processors :: "processor list"
  sources :: "bool list"
  scheduled :: "(rat \<times> rat) list"
  console :: "log_entry list"
  connWrites :: "ConnectionState list"

text \<open>
  \<open>audioContextRef\<close> and \<open>inputAudioContextRef\<close> say whether the reference is non-null;
  \<open>streams\<close> holds for every acquired \<^verbatim>\<open>MediaStream\<close> whether its tracks are live,
  \<open>timers\<close> for every interval timer whether it is running, \<open>sources\<close> for every
  \<^verbatim>\<open>MediaStreamAudioSourceNode\<close> whether it is connected. \<open>scheduled\<close> lists the calls
  \<^verbatim>\<open>source.start(startTime)\<close> made so far, each with the duration of its buffer.
  \<open>console\<close> lists the calls of \<^verbatim>\<open>console.log\<close>, \<^verbatim>\<open>console.warn\<close> and \<^verbatim>\<open>console.error\<close>,
  and \<open>connWrites\<close> the values passed to \<^verbatim>\<open>setConnectionState\<close>, in order.
\<close>

definition initial_state :: state where
  "initial_state =
     \<lparr>connectionState = DISCONNECTED, isMuted = False, isVideoEnabled = True,
      messages = [], currentTranscription = [], errorMsg = None,
      streamRef = None, sessionRef = None, sessionPromiseRef = None,
      audioContextRef = False, inputAudioContextRef = False, nextStartTimeRef = Finite 0,
      frameIntervalRef = None, processorRef = None, sourceRef = None,
      streams = [], transports = [], timers = [], processors = [], sources = [],
      scheduled = [], console = [], connWrites = []\<rparr>"

definition render_of :: "state \<Rightarrow> render" where
  "render_of st =
     \<lparr>r_isMuted = isMuted st, r_isVideoEnabled = isVideoEnabled st,
      r_currentTranscription = currentTranscription st\<rparr>"

subsection \<open>JavaScript values\<close>

text \<open>A string is truthy when it is not empty; an absent value is falsy.\<close>

definition truthy :: "string option \<Rightarrow> bool" where
  "truthy v = (case v of None \<Rightarrow> False | Some s \<Rightarrow> s \<noteq> [])"

text \<open>
  \<^verbatim>\<open>String.prototype.trim\<close> on the code units up to 255: tab, line feed, vertical tab,
  form feed, carriage return, space and no-break space are white space.
\<close>

definition is_ws :: "char \<Rightarrow> bool" where
  "is_ws c = ((of_char c :: nat) \<in> {9, 10, 11, 12, 13, 32, 160})"

definition trim :: "string \<Rightarrow> string" where
  "trim s = rev (dropWhile is_ws (rev (dropWhile is_ws s)))"

text \<open>\<^verbatim>\<open>Number.prototype.toString\<close> on a natural number: its decimal digits.\<close>

fun toString :: "nat \<Rightarrow> string" where
  "toString n =
     (if n < 10 then [char_of (48 + n)]
      else toString (n div 10) @ [char_of (48 + n mod 10)])"

declare toString.simps [simp del]

subsection \<open>Arithmetic of Numbers\<close>

text \<open>The nearest integer, the even one of two that are equally near.\<close>

definition round_half_even :: "rat \<Rightarrow> int" where
  "round_half_even z =
     (let f = \<lfloor>z\<rfloor> in
      if z - of_int f < 1 / 2 then f
      else if 1 / 2 < z - of_int f then f + 1
      else if even f then f else f + 1)"

text \<open>
  The binary64 values near \<open>y\<close> are the multiples of \<open>2 powi k\<close> where \<open>k\<close> is the greatest
  exponent from 971 down to -1073 with \<open>2 powi (k + 52) \<le> \<bar>y\<bar>\<close>, so that a significand has
  53 bits, and -1074, the spacing of the subnormal values, when there is none.
  \<open>qsearch\<close> counts \<open>k\<close> down, at most \<open>n\<close> times, with \<open>p = 2 powi (k + 52)\<close>.
\<close>

fun qsearch :: "nat \<Rightarrow> int \<Rightarrow> rat \<Rightarrow> rat \<Rightarrow> int" where
  "qsearch 0 k p y = k"
| "qsearch (Suc n) k p y = (if p \<le> y then k else qsearch n (k - 1) (p / 2) y)"

definition qexp :: "rat \<Rightarrow> int" where
  "qexp y = qsearch 2045 971 (2 ^ 1023) \<bar>y\<bar>"

text \<open>
  The Number nearest to an exact value, a tie going to the even significand; what would
  round to magnitude \<open>2 ^ 1024\<close> is an infinity.
\<close>

definition round64 :: "rat \<Rightarrow> number" where
  "round64 y =
     (let q = 2 powi (qexp y); r = of_int (round_half_even (y / q)) * q in
      if 2 ^ 1024 \<le> r then PosInfinity
      else if r \<le> - (2 ^ 1024) then NegInfinity
      else Finite r)"

text \<open>The operator \<^verbatim>\<open>+\<close> on two finite Numbers: their exact sum, rounded.\<close>

definition add64 :: "rat \<Rightarrow> rat \<Rightarrow> number" where
  "add64 x y = round64 (x + y)"

text \<open>\<^verbatim>\<open>Math.max\<close> of a finite Number and a Number.\<close>

definition js_max :: "rat \<Rightarrow> number \<Rightarrow> number" where
  "js_max t c =
     (case c of Finite x \<Rightarrow> Finite (max t x) | PosInfinity \<Rightarrow> PosInfinity | NegInfinity \<Rightarrow> Finite t)"

text \<open>
  A rational number is a Number when rounding leaves it as it is; \<open>at_most c t\<close> compares
  a Number with a finite one.
\<close>

definition is_binary64 :: "rat \<Rightarrow> bool" where
  "is_binary64 x = (round64 x = Finite x)"

definition is_number :: "number \<Rightarrow> bool" where
  "is_number c = (case c of Finite x \<Rightarrow> is_binary64 x | PosInfinity \<Rightarrow> True | NegInfinity \<Rightarrow> True)"

definition at_most :: "number \<Rightarrow> rat \<Rightarrow> bool" where
  "at_most c t = (case c of Finite x \<Rightarrow> x \<le> t | PosInfinity \<Rightarrow> False | NegInfinity \<Rightarrow> True)"

section \<open>The operations of the component\<close>

subsection \<open>Setters and the console\<close>

definition setConnectionState :: "ConnectionState \<Rightarrow> state \<Rightarrow> state" where
  "setConnectionState c st = st\<lparr>connectionState := c, connWrites := connWrites st @ [c]\<rparr>"

definition setErrorMsg :: "string option \<Rightarrow> state \<Rightarrow> state" where
  "setErrorMsg e st = st\<lparr>errorMsg := e\<rparr>"

definition setCurrentTranscription :: "(string \<Rightarrow> string) \<Rightarrow> state \<Rightarrow> state" where
  "setCurrentTranscription f st = st\<lparr>currentTranscription := f (currentTranscription st)\<rparr>"

definition setMessages :: "(Message list \<Rightarrow> Message list) \<Rightarrow> state \<Rightarrow> state" where
  "setMessages f st = st\<lparr>messages := f (messages st)\<rparr>"

definition setIsMuted :: "bool \<Rightarrow> state \<Rightarrow> state" where
  "setIsMuted b st = st\<lparr>isMuted := b\<rparr>"

definition console_put :: "log_entry \<Rightarrow> state \<Rightarrow> state" where
  "console_put e st = st\<lparr>console := console st @ [e]\<rparr>"

text \<open>
  \<^verbatim>\<open>toggleMute = () => setIsMuted(!isMuted)\<close> negates the \<^verbatim>\<open>isMuted\<close> of the render that
  made the button's handler; the button is rendered anew with every state change, so
  this is the present value.
\<close>

definition toggleMute :: "state \<Rightarrow> state" where
  "toggleMute st = setIsMuted (\<not> isMuted st) st"

subsection \<open>Inbound messages\<close>

text \<open>
  \<^verbatim>\<open>handleServerMessage\<close>. Its parameters beside the message and the state:
  \<^item> \<open>decode\<close>, for \<^verbatim>\<open>decodeAudioData(base64ToUint8Array(audioData), ctx)\<close> of
    \<^verbatim>\<open>services/audioUtils\<close>, which is not among the sources: it yields the duration of
    the decoded buffer or throws;
  \<^item> \<open>cap\<close>, the render whose closure this is;
  \<^item> \<open>currentTime\<close>, the reading of \<^verbatim>\<open>ctx.currentTime\<close>, and \<open>dateNow\<close>, the reading of
    the clock by \<^verbatim>\<open>Date.now()\<close> and \<^verbatim>\<open>new Date()\<close>.
  The function is \<^verbatim>\<open>async\<close> and has no \<^verbatim>\<open>try\<close>: a throw rejects its promise (\<open>Inl\<close>).
  It writes nothing before its one \<^verbatim>\<open>await\<close>, which only a message with audio reaches,
  and runs from there to its end; so a call is one step, taken when the decoding has
  ended, and at once for a message without audio. The clock readings are those of that
  moment.

  \<^verbatim>\<open>Math.max(currentTime, nextStartTimeRef.current)\<close> and \<^verbatim>\<open>startTime + audioBuffer.duration\<close>
  are operations on Numbers. \<^verbatim>\<open>source.start(startTime)\<close> takes a finite time that is not
  negative: it throws a \<^verbatim>\<open>TypeError\<close> for an infinite one and a \<^verbatim>\<open>RangeError\<close> for a
  negative one, before the cursor is written.
\<close>

definition schedule_audio ::
  "(string \<Rightarrow> error + rat) \<Rightarrow> rat \<Rightarrow> LiveServerMessage \<Rightarrow> state \<Rightarrow> error + state" where
  "schedule_audio decode currentTime message st =
     (if truthy (inlineData message) \<and> audioContextRef st then
        (case decode (the (inlineData message)) of
           Inl e \<Rightarrow> Inl e
         | Inr duration \<Rightarrow>
             (case js_max currentTime (nextStartTimeRef st) of
                Finite startTime \<Rightarrow>
                  (if startTime < 0 then Inl (Error ''RangeError'')
                   else Inr (st\<lparr>scheduled := scheduled st @ [(startTime, duration)],
                              nextStartTimeRef := add64 startTime duration\<rparr>))
              | PosInfinity \<Rightarrow> Inl (Error ''TypeError'')
              | NegInfinity \<Rightarrow> Inl (Error ''TypeError'')))
      else Inr st)"

definition append_transcription :: "LiveServerMessage \<Rightarrow> state \<Rightarrow> state" where
  "append_transcription message st =
     (if truthy (outputTranscription message) \<or> truthy (inputTranscription message) then
        (if truthy (outputTranscription message)
         then setCurrentTranscription (\<lambda>prev. prev @ the (outputTranscription message)) st
         else st)
      else st)"

definition complete_turn :: "render \<Rightarrow> nat \<Rightarrow> LiveServerMessage \<Rightarrow> state \<Rightarrow> state" where
  "complete_turn cap dateNow message st =
     (if turnComplete message then
        (let finalTranscript = r_currentTranscription cap in
         if trim finalTranscript \<noteq> [] then
           setCurrentTranscription (\<lambda>_. [])
             (setMessages (\<lambda>prev. prev @
                [\<lparr>m_id = toString dateNow, m_role = Model, m_text = finalTranscript,
                  m_timestamp = dateNow\<rparr>]) st)
         else st)
      else st)"

definition handleServerMessage ::
  "(string \<Rightarrow> error + rat) \<Rightarrow> render \<Rightarrow> rat \<Rightarrow> nat \<Rightarrow> LiveServerMessage \<Rightarrow> state
     \<Rightarrow> error + state" where
  "handleServerMessage decode cap currentTime dateNow message st =
     (case schedule_audio decode currentTime message st of
        Inl e \<Rightarrow> Inl e
      | Inr st1 \<Rightarrow> Inr (complete_turn cap dateNow message (append_transcription message st1)))"

text \<open>
  \<^verbatim>\<open>onmessage\<close> calls the handler and drops its promise: a rejection is handled by
  nobody and the state stays as it was.
\<close>

definition onmessage ::
  "(string \<Rightarrow> error + rat) \<Rightarrow> render \<Rightarrow> rat \<times> nat \<times> LiveServerMessage \<Rightarrow> state \<Rightarrow> state" where
  "onmessage decode cap ev st =
     (case ev of (currentTime, dateNow, message) \<Rightarrow>
        (case handleServerMessage decode cap currentTime dateNow message st of
           Inl e \<Rightarrow> st
         | Inr st' \<Rightarrow> st'))"

text \<open>
  The calls of the handler in one session, each with its clock readings, in the order of
  their steps. Nothing awaits the handler, so a message with audio takes its step when
  its decoding has ended, which may be after the step of a message that arrived later;
  messages without audio take their steps in the order of their arrival.
\<close>

fun deliver ::
  "(string \<Rightarrow> error + rat) \<Rightarrow> render \<Rightarrow> (rat \<times> nat \<times> LiveServerMessage) list \<Rightarrow> state
     \<Rightarrow> state" where
  "deliver decode cap [] st = st"
| "deliver decode cap (ev # evs) st = deliver decode cap evs (onmessage decode cap ev st)"

text \<open>The three kinds of inbound event, each as the message that carries only it.\<close>

definition AudioFrame :: "string \<Rightarrow> LiveServerMessage" where
  "AudioFrame b =
     \<lparr>inlineData = Some b, outputTranscription = None, inputTranscription = None,
      turnComplete = False\<rparr>"

definition TranscriptDelta :: "string \<Rightarrow> LiveServerMessage" where
  "TranscriptDelta t =
     \<lparr>inlineData = None, outputTranscription = Some t, inputTranscription = None,
      turnComplete = False\<rparr>"

definition TurnComplete :: LiveServerMessage where
  "TurnComplete =
     \<lparr>inlineData = None, outputTranscription = None, inputTranscription = None,
      turnComplete = True\<rparr>"

subsection \<open>Teardown\<close>

text \<open>
  \<^verbatim>\<open>stopMediaProcessing\<close> clears the interval timer, disconnects the processor node and
  the source node, and nulls the three references. The identifier of an interval timer is
  a positive number, so the test \<^verbatim>\<open>if (frameIntervalRef.current)\<close> succeeds exactly when the
  reference is set.
\<close>

definition stopMediaProcessing :: "state \<Rightarrow> state" where
  "stopMediaProcessing st =
     (let st1 = (case frameIntervalRef st of
                   None \<Rightarrow> st
                 | Some k \<Rightarrow> st\<lparr>timers := (timers st)[k := False], frameIntervalRef := None\<rparr>);
          st2 = (case processorRef st1 of
                   None \<Rightarrow> st1
                 | Some p \<Rightarrow>
                     st1\<lparr>processors :=
                           (processors st1)[p := (processors st1 ! p)\<lparr>connected := False\<rparr>],
                         processorRef := None\<rparr>)
      in (case sourceRef st2 of
            None \<Rightarrow> st2
          | Some q \<Rightarrow> st2\<lparr>sources := (sources st2)[q := False], sourceRef := None\<rparr>))"

text \<open>\<^verbatim>\<open>session.close()\<close>: it throws, or the transport is closed.\<close>

definition session_close :: "bool \<Rightarrow> nat \<Rightarrow> state \<Rightarrow> error + state" where
  "session_close throws i st =
     (if throws then Inl (Error [])
      else Inr (st\<lparr>transports := (transports st)[i := (transports st ! i)\<lparr>status := Closed\<rparr>]\<rparr>))"

text \<open>
  \<^verbatim>\<open>stopSession\<close>. It is declared \<^verbatim>\<open>async\<close> but awaits nothing, so it runs to its end
  when called. Its one call that may throw, \<^verbatim>\<open>close()\<close>, is inside \<^verbatim>\<open>try\<close>/\<^verbatim>\<open>catch\<close>:
  the function has no path that raises, and the model is a total function on states.
  \<open>throws\<close> says whether \<^verbatim>\<open>close()\<close> throws.
\<close>

definition stopSession :: "bool \<Rightarrow> state \<Rightarrow> state" where
  "stopSession throws st =
     (let st1 = (case streamRef st of
                   None \<Rightarrow> st
                 | Some s \<Rightarrow> st\<lparr>streams := (streams st)[s := False], streamRef := None\<rparr>);
          st2 = stopMediaProcessing st1;
          st3 = (case sessionRef st2 of
                   None \<Rightarrow> st2
                 | Some i \<Rightarrow>
                     (case session_close throws i st2 of
                        Inl e \<Rightarrow> console_put (Warn ''Failed to close session:'') st2
                      | Inr st' \<Rightarrow> st')\<lparr>sessionRef := None\<rparr>)
      in setCurrentTranscription (\<lambda>_. []) (setConnectionState DISCONNECTED st3))"

subsection \<open>Starting a session\<close>

definition initializeAudioContexts :: "state \<Rightarrow> state" where
  "initializeAudioContexts st = st\<lparr>audioContextRef := True, inputAudioContextRef := True\<rparr>"

text \<open>
  What the surroundings answer to one call of \<^verbatim>\<open>startSession\<close>: the value of
  \<^verbatim>\<open>process.env.API_KEY\<close>, and for each awaited promise the error it rejects with, if any
  (\<open>resumeOutput\<close> and \<open>resumeInput\<close> for the two \<^verbatim>\<open>resume()\<close>, \<open>getUserMedia\<close>,
  \<open>videoPlay\<close> for \<^verbatim>\<open>videoRef.current.play()\<close>; a step that is skipped rejects with
  nothing), and whether \<^verbatim>\<open>close()\<close> throws in the teardown of a failed start.
  The awaited steps of one call are taken in one piece.
\<close>

record start_env =
  API_KEY :: "string option"
  resumeOutput :: "error option"
  resumeInput :: "error option"
  getUserMedia :: "error option"
  videoPlay :: "error option"
  closeThrows :: bool

text \<open>The \<^verbatim>\<open>catch\<close> block of \<^verbatim>\<open>startSession\<close>.\<close>

definition start_failed :: "bool \<Rightarrow> error \<Rightarrow> state \<Rightarrow> state" where
  "start_failed throws err st =
     stopSession throws
       (setErrorMsg
          (Some (if reason err = [] then ''Failed to access camera/microphone or connect.''
                 else reason err))
          (setConnectionState ERROR (console_put (Err ''Failed to start session:'') st)))"

text \<open>
  \<^verbatim>\<open>startSession\<close>, up to and including the call of \<^verbatim>\<open>ai.live.connect\<close>, which is not
  awaited: it creates the transport, in its handshake, with the callbacks of the render
  in which \<^verbatim>\<open>startSession\<close> was called, and \<^verbatim>\<open>sessionPromiseRef\<close> takes its promise.
  Nothing in the function looks at the connection state or at the references of a
  session that exists already.
\<close>

definition startSession :: "start_env \<Rightarrow> state \<Rightarrow> state" where
  "startSession env st =
     (let st1 = setErrorMsg None st in
      if \<not> truthy (API_KEY env) then
        start_failed (closeThrows env)
          (Error ''API Key is missing. Please check your deployment settings or .env file.'') st1
      else
        (let st2 = initializeAudioContexts (setConnectionState CONNECTING st1) in
         case resumeOutput env of
           Some e \<Rightarrow> start_failed (closeThrows env) e st2
         | None \<Rightarrow>
        (case resumeInput env of
           Some e \<Rightarrow> start_failed (closeThrows env) e st2
         | None \<Rightarrow>
        (case getUserMedia env of
           Some e \<Rightarrow> start_failed (closeThrows env) e st2
         | None \<Rightarrow>
        (let st3 = st2\<lparr>streams := streams st2 @ [True],
                       streamRef := Some (length (streams st2))\<rparr> in
         case videoPlay env of
           Some e \<Rightarrow> start_failed (closeThrows env) e st3
         | None \<Rightarrow>
             st3\<lparr>transports := transports st3 @
                   [\<lparr>status = Handshake, resolved = False, outbox = [], waiting = [],
                     callbacks = render_of st\<rparr>],
                 sessionPromiseRef := Some (length (transports st3))\<rparr>)))))"

subsection \<open>Callbacks of a session\<close>

text \<open>
  \<^verbatim>\<open>startAudioInput\<close> makes a source node and a processor node, connects them, and
  stores them in the references; the processor's \<^verbatim>\<open>onaudioprocess\<close> is a closure of the
  render \<open>cap\<close>. \<^verbatim>\<open>startVideoStreaming\<close> clears a running timer and starts a new one;
  what the timer's callback does with the camera picture is not part of this model.
\<close>

definition startAudioInput :: "render \<Rightarrow> state \<Rightarrow> state" where
  "startAudioInput cap st =
     (if \<not> inputAudioContextRef st then st
      else st\<lparr>sources := sources st @ [True],
              processors := processors st @ [\<lparr>connected = True, captured = cap\<rparr>],
              sourceRef := Some (length (sources st)),
              processorRef := Some (length (processors st))\<rparr>)"

definition startVideoStreaming :: "state \<Rightarrow> state" where
  "startVideoStreaming st =
     (let st1 = (case frameIntervalRef st of
                   None \<Rightarrow> st
                 | Some k \<Rightarrow> st\<lparr>timers := (timers st)[k := False]\<rparr>)
      in st1\<lparr>timers := timers st1 @ [True], frameIntervalRef := Some (length (timers st1))\<rparr>)"

definition onopen :: "render \<Rightarrow> state \<Rightarrow> state" where
  "onopen cap st =
     startVideoStreaming
       (startAudioInput cap
          (setConnectionState CONNECTED (console_put (Log ''Gemini Live Session Opened'') st)))"

definition onclose :: "state \<Rightarrow> state" where
  "onclose st =
     stopMediaProcessing
       (setConnectionState DISCONNECTED (console_put (Log ''Gemini Live Session Closed'') st))"

definition onerror :: "bool \<Rightarrow> state \<Rightarrow> state" where
  "onerror throws st =
     stopSession throws
       (setErrorMsg (Some ''Connection error occurred. Please try again.'')
          (setConnectionState ERROR (console_put (Err ''Gemini Live Error'') st)))"

text \<open>
  The events of transport \<open>i\<close>. When its handshake ends well, \<^verbatim>\<open>onopen\<close> runs, the
  promise of \<^verbatim>\<open>connect\<close> resolves, \<^verbatim>\<open>sessionRef\<close> takes the session and the sends that
  waited on the promise go out. When the transport fails, \<^verbatim>\<open>onerror\<close> runs; when it
  closes, \<^verbatim>\<open>onclose\<close>.
\<close>

definition session_opened :: "nat \<Rightarrow> state \<Rightarrow> state" where
  "session_opened i st =
     (if i < length (transports st) \<and> status (transports st ! i) = Handshake then
        (let st1 = onopen (callbacks (transports st ! i))
                     (st\<lparr>transports := (transports st)[i := (transports st ! i)\<lparr>status := Open\<rparr>]\<rparr>);
             t = transports st1 ! i
         in st1\<lparr>transports :=
                  (transports st1)[i := t\<lparr>resolved := True, outbox := outbox t @ waiting t,
                                          waiting := []\<rparr>],
                sessionRef := Some i\<rparr>)
      else st)"

definition session_failed :: "bool \<Rightarrow> nat \<Rightarrow> state \<Rightarrow> state" where
  "session_failed throws i st =
     (if i < length (transports st) \<and> status (transports st ! i) \<noteq> Closed then
        onerror throws
          (st\<lparr>transports := (transports st)[i := (transports st ! i)\<lparr>status := Closed\<rparr>]\<rparr>)
      else st)"

definition session_closed :: "nat \<Rightarrow> state \<Rightarrow> state" where
  "session_closed i st =
     (if i < length (transports st) \<and> status (transports st ! i) \<noteq> Closed then
        onclose (st\<lparr>transports := (transports st)[i := (transports st ! i)\<lparr>status := Closed\<rparr>]\<rparr>)
      else st)"

text \<open>A transport is active from \<^verbatim>\<open>connect\<close> until it is closed.\<close>

definition active_transports :: "state \<Rightarrow> nat" where
  "active_transports st = length (filter (\<lambda>t. status t \<noteq> Closed) (transports st))"

subsection \<open>Outbound audio\<close>

text \<open>
  \<^verbatim>\<open>sessionPromiseRef.current?.then(session => { try { session.sendRealtimeInput(m) }
  catch ... })\<close>: nothing without a promise; a send on a promise that has not resolved
  waits for it; a send that throws is logged and lost. \<open>sendThrows\<close> says whether the send
  throws.
\<close>

definition sendRealtimeInput :: "bool \<Rightarrow> string \<Rightarrow> media \<Rightarrow> state \<Rightarrow> state" where
  "sendRealtimeInput sendThrows warning m st =
     (case sessionPromiseRef st of
        None \<Rightarrow> st
      | Some i \<Rightarrow>
          (if i < length (transports st) then
             (let t = transports st ! i in
              if \<not> resolved t then
                st\<lparr>transports := (transports st)[i := t\<lparr>waiting := waiting t @ [m]\<rparr>]\<rparr>
              else if sendThrows then console_put (Warn warning) st
              else st\<lparr>transports := (transports st)[i := t\<lparr>outbox := outbox t @ [m]\<rparr>]\<rparr>)
           else st))"

text \<open>
  \<^verbatim>\<open>processor.onaudioprocess\<close> for one block of 4096 samples. \<open>base64\<close> is the text that
  \<^verbatim>\<open>float32ToPCM16\<close> and \<^verbatim>\<open>uint8ArrayToBase64\<close> of \<^verbatim>\<open>services/audioUtils\<close> make of the
  block. The \<^verbatim>\<open>isMuted\<close> it tests is that of the render \<open>cap\<close> of the closure.
\<close>

definition onaudioprocess :: "render \<Rightarrow> bool \<Rightarrow> string \<Rightarrow> state \<Rightarrow> state" where
  "onaudioprocess cap sendThrows base64 st =
     (if r_isMuted cap then st
      else sendRealtimeInput sendThrows ''Error sending audio input:''
             \<lparr>mimeType = ''audio/pcm;rate=16000'', data = base64\<rparr> st)"

text \<open>The audio graph hands a block to processor \<open>p\<close> while it is connected.\<close>

definition audio_block :: "nat \<Rightarrow> bool \<Rightarrow> string \<Rightarrow> state \<Rightarrow> state" where
  "audio_block p sendThrows base64 st =
     (if p < length (processors st) \<and> connected (processors st ! p)
      then onaudioprocess (captured (processors st ! p)) sendThrows base64 st
      else st)"

subsection \<open>Predicates of the playback schedule\<close>

text \<open>
  A schedule is chained up to a cursor when the Number that the code computes as the end
  of every scheduled buffer is finite and no later than the start of the next one, and
  the cursor is that Number of the last buffer.
\<close>

definition chained :: "(rat \<times> rat) list \<Rightarrow> number \<Rightarrow> bool" where
  "chained sch cursor \<longleftrightarrow>
     (\<forall>i. Suc i < length sch \<longrightarrow>
        at_most (add64 (fst (sch ! i)) (snd (sch ! i))) (fst (sch ! Suc i))) \<and>
     (sch \<noteq> [] \<longrightarrow> cursor = add64 (fst (last sch)) (snd (last sch)))"

text \<open>
  A rational number has a significand of 53 bits when it is an integer below \<open>2 ^ 53\<close> in
  magnitude times a power of two that is a multiple of the least subnormal value. A
  schedule is groomed when its starts are such numbers and not negative, its durations
  are not negative, and a finite cursor is such a number.
\<close>

definition repr :: "rat \<Rightarrow> bool" where
  "repr x \<longleftrightarrow> (\<exists>n k. x = of_int n * 2 powi k \<and> \<bar>n\<bar> < 2 ^ 53 \<and> - 1074 \<le> k)"

definition groomed :: "(rat \<times> rat) list \<Rightarrow> number \<Rightarrow> bool" where
  "groomed sch cursor \<longleftrightarrow>
     (\<forall>x \<in> set sch. repr (fst x) \<and> 0 \<le> fst x \<and> 0 \<le> snd x) \<and>
     (\<forall>c. cursor = Finite c \<longrightarrow> repr c)"

subsection \<open>Sessions and example inputs\<close>

text \<open>The handler calls for the messages of transport \<open>i\<close>, while it is open, are its own callbacks.\<close>

definition session_messages ::
  "(string \<Rightarrow> error + rat) \<Rightarrow> nat \<Rightarrow> (rat \<times> nat \<times> LiveServerMessage) list \<Rightarrow> state
     \<Rightarrow> state" where
  "session_messages decode i evs st =
     (if i < length (transports st) \<and> status (transports st ! i) = Open
      then deliver decode (callbacks (transports st ! i)) evs st
      else st)"

text \<open>
  A decoder for the examples: a payload of odd length is malformed, any other decodes to
  a buffer that lasts half as many seconds as the payload has characters.
\<close>

definition pcm_seconds :: "string \<Rightarrow> error + rat" where
  "pcm_seconds b =
     (if odd (length b) then Inl (Error ''odd byte length'')
      else Inr (of_nat (length b div 2)))"

text \<open>
  A second decoder: the payload \<open>''A''\<close> is a buffer of 0.1 seconds and the payload
  \<open>''B''\<close> one of 0.7 seconds, each duration being the Number that \<^verbatim>\<open>0.1\<close> and \<^verbatim>\<open>0.7\<close>
  denote; and three frames that arrive together at clock reading 0.
\<close>

definition tenths :: "string \<Rightarrow> error + rat" where
  "tenths b =
     (if b = ''A'' then Inr (3602879701896397 / 36028797018963968)
      else if b = ''B'' then Inr (3152519739159347 / 4503599627370496)
      else Inl (Error ''unknown payload''))"

definition burst :: "(rat \<times> nat \<times> LiveServerMessage) list" where
  "burst = [(0, 0, AudioFrame ''A''), (0, 0, AudioFrame ''B''), (0, 0, AudioFrame ''A'')]"

text \<open>
  A message whose audio is malformed and that also carries a piece of the transcript and
  the turn-complete marker.
\<close>

definition malformed_with_text :: LiveServerMessage where
  "malformed_with_text =
     \<lparr>inlineData = Some ''abc'', outputTranscription = Some ''Hi'', inputTranscription = None,
      turnComplete = True\<rparr>"

definition three_frames :: "(rat \<times> nat \<times> LiveServerMessage) list" where
  "three_frames =
     [(5, 0, AudioFrame ''abcd''), (6, 0, AudioFrame ''abcdef''), (20, 0, AudioFrame ''ab'')]"

text \<open>Five frames of which the third is malformed.\<close>

definition five_frames :: "(rat \<times> nat \<times> LiveServerMessage) list" where
  "five_frames =
     [(0, 0, AudioFrame ''abcd''), (1, 0, AudioFrame ''ab''), (2, 0, AudioFrame ''abc''),
      (10, 0, AudioFrame ''abcd''), (11, 0, AudioFrame ''ab'')]"

text \<open>
  A start to which everything is granted, one whose device request is denied, and the
  state of a freshly mounted component after a first session has been started and has
  opened.
\<close>

definition granted :: start_env where
  "granted =
     \<lparr>API_KEY = Some ''key'', resumeOutput = None, resumeInput = None, getUserMedia = None,
      videoPlay = None, closeThrows = False\<rparr>"

definition denied :: start_env where
  "denied = granted\<lparr>getUserMedia := Some (Error ''Permission denied'')\<rparr>"

definition connected_state :: state where
  "connected_state = session_opened 0 (startSession granted initial_state)"

text \<open>
  The state of a freshly mounted component while its first \<^verbatim>\<open>startSession\<close> waits for
  the devices: the connection state is written, the audio contexts exist, no device and
  no transport has been acquired.
\<close>

definition connecting_state :: state where
  "connecting_state =
     initializeAudioContexts (setConnectionState CONNECTING (setErrorMsg None initial_state))"

text \<open>
  The same component after the user has muted the microphone, the session has been
  stopped, and a second session has been started and has opened.
\<close>

definition restarted_muted :: state where
  "restarted_muted =
     session_opened 1 (startSession granted (stopSession False (toggleMute connected_state)))"

text \<open>
  The same component when \<^verbatim>\<open>startSession\<close> is called a second time while the first
  session is still connecting, and both sessions then open.
\<close>

definition started_twice :: state where
  "started_twice =
     session_opened 1 (session_opened 0
       (startSession granted (startSession granted initial_state)))"

subsection \<open>Transport encoding\<close>

text \<open>
  Modelled from the spec: \<^verbatim>\<open>uint8ArrayToBase64\<close> and \<^verbatim>\<open>base64ToUint8Array\<close> are imported
  from \<^verbatim>\<open>services/audioUtils\<close>, which is not among the sources. The specification calls
  them \<^verbatim>\<open>bytesToBase64\<close> and \<^verbatim>\<open>base64ToBytes\<close>, a lossless text-safe transport encoding of
  binary buffers; the names of the functions and the \<^verbatim>\<open>data: base64\<close> of the messages say
  which one. The model is Base64 with the standard alphabet and \<^verbatim>\<open>=\<close> padding: three
  bytes make a number of 24 bits, written as four digits of six bits each.
\<close>

type_synonym byte = "8 word"

text \<open>Modelled from the spec: the 64 digits of the encoding, in the order of their values.\<close>

definition base64_alphabet :: string where
  "base64_alphabet = ''ABCDEFGHIJKLMNOPQRSTUVWXYZabcdefghijklmnopqrstuvwxyz0123456789+/''"

text \<open>Modelled from the spec: the digit of a value below 64.\<close>

definition sextet_char :: "nat \<Rightarrow> char" where
  "sextet_char n = base64_alphabet ! n"

text \<open>Modelled from the spec: the first position of a character in a text, if it has one.\<close>

fun index_of :: "char \<Rightarrow> string \<Rightarrow> nat option" where
  "index_of c [] = None"
| "index_of c (x # xs) = (if c = x then Some 0 else map_option Suc (index_of c xs))"

text \<open>Modelled from the spec: the value of a digit; no other character has one.\<close>

definition char_sextet :: "char \<Rightarrow> nat option" where
  "char_sextet c = index_of c base64_alphabet"

text \<open>
  Modelled from the spec: \<^verbatim>\<open>bytesToBase64(bytes) -> text\<close>, the function
  \<^verbatim>\<open>uint8ArrayToBase64\<close> of the missing \<^verbatim>\<open>services/audioUtils\<close>.
\<close>

fun uint8ArrayToBase64 :: "byte list \<Rightarrow> string" where
  "uint8ArrayToBase64 [] = []"
| "uint8ArrayToBase64 [a] =
     (let n = unat a * 65536
      in [sextet_char (n div 262144), sextet_char (n div 4096 mod 64), CHR ''='', CHR ''=''])"
| "uint8ArrayToBase64 [a, b] =
     (let n = unat a * 65536 + unat b * 256
      in [sextet_char (n div 262144), sextet_char (n div 4096 mod 64),
          sextet_char (n div 64 mod 64), CHR ''=''])"
| "uint8ArrayToBase64 (a # b # c # bs) =
     (let n = unat a * 65536 + unat b * 256 + unat c
      in [sextet_char (n div 262144), sextet_char (n div 4096 mod 64),
          sextet_char (n div 64 mod 64), sextet_char (n mod 64)] @ uint8ArrayToBase64 bs)"

text \<open>Modelled from the spec: the error of a text that cannot be decoded.\<close>

definition malformed :: error where
  "malformed = Error ''The string to be decoded is not correctly encoded.''"

text \<open>
  Modelled from the spec: \<^verbatim>\<open>base64ToBytes(text) -> bytes\<close>, the function
  \<^verbatim>\<open>base64ToUint8Array\<close> of the missing \<^verbatim>\<open>services/audioUtils\<close>. A text that is not a
  padded Base64 text is an error.
\<close>

fun base64ToUint8Array :: "string \<Rightarrow> error + byte list" where
  "base64ToUint8Array [] = Inr []"
| "base64ToUint8Array (c1 # c2 # c3 # c4 # cs) =
     (case (char_sextet c1, char_sextet c2) of
        (Some s1, Some s2) \<Rightarrow>
          (if c4 = CHR ''='' then
             (if cs \<noteq> [] then Inl malformed
              else if c3 = CHR ''='' then
                Inr [of_nat ((s1 * 262144 + s2 * 4096) div 65536)]
              else
                (case char_sextet c3 of
                   None \<Rightarrow> Inl malformed
                 | Some s3 \<Rightarrow>
                     (let n = s1 * 262144 + s2 * 4096 + s3 * 64
                      in Inr [of_nat (n div 65536), of_nat (n div 256 mod 256)])))
           else
             (case (char_sextet c3, char_sextet c4) of
                (Some s3, Some s4) \<Rightarrow>
                  (let n = s1 * 262144 + s2 * 4096 + s3 * 64 + s4
                   in case base64ToUint8Array cs of
                        Inl e \<Rightarrow> Inl e
                      | Inr bs \<Rightarrow>
                          Inr (of_nat (n div 65536) # of_nat (n div 256 mod 256) #
                               of_nat (n mod 256) # bs))
              | _ \<Rightarrow> Inl malformed))
      | _ \<Rightarrow> Inl malformed)"
| "base64ToUint8Array _ = Inl malformed"

section \<open>Arithmetic of Numbers\<close>

lemma round_half_even_ge: "of_int N \<le> z \<Longrightarrow> N \<le> round_half_even z"
proof -
  assume "of_int N \<le> z"
  then have "N \<le> \<lfloor>z\<rfloor>" by (simp add: le_floor_iff)
  moreover have "\<lfloor>z\<rfloor> \<le> round_half_even z" by (simp add: round_half_even_def Let_def)
  ultimately show ?thesis by simp
qed

lemma round_half_even_le: "z \<le> of_int N \<Longrightarrow> round_half_even z \<le> N"
proof (cases "z = of_int N")
  case True
  then show ?thesis by (simp add: round_half_even_def)
next
  case False
  assume "z \<le> of_int N"
  with False have "z < of_int N" by simp
  then have "\<lfloor>z\<rfloor> < N" by (simp add: floor_less_iff)
  moreover have "round_half_even z \<le> \<lfloor>z\<rfloor> + 1" by (simp add: round_half_even_def Let_def)
  ultimately show ?thesis by simp
qed

lemma round_half_even_of_int [simp]: "round_half_even (of_int N) = N"
  by (simp add: round_half_even_def)

lemma qsearch_spec:
  "p = 2 powi (k + 52) \<Longrightarrow>
   k - int n \<le> qsearch n k p y \<and> qsearch n k p y \<le> k \<and>
   (k - int n < qsearch n k p y \<longrightarrow> 2 powi (qsearch n k p y + 52) \<le> y) \<and>
   (qsearch n k p y < k \<longrightarrow> y < 2 powi (qsearch n k p y + 53))"
proof (induction n arbitrary: k p)
  case 0
  then show ?case by simp
next
  case (Suc n)
  show ?case
  proof (cases "p \<le> y")
    case True
    with Suc.prems show ?thesis by simp
  next
    case False
    note npy = False
    have "(2::rat) powi (k + 52 - 1) = 2 powi (k + 52) / 2 powi 1"
      by (rule power_int_diff) simp
    then have half: "p / 2 = 2 powi (k - 1 + 52)"
      using Suc.prems by (simp add: algebra_simps)
    define r where "r = qsearch n (k - 1) (p / 2) y"
    have IH: "k - 1 - int n \<le> r \<and> r \<le> k - 1 \<and>
      (k - 1 - int n < r \<longrightarrow> 2 powi (r + 52) \<le> y) \<and>
      (r < k - 1 \<longrightarrow> y < 2 powi (r + 53))"
      unfolding r_def by (rule Suc.IH [OF half])
    have res: "qsearch (Suc n) k p y = r" using npy by (simp add: r_def)
    have upper: "y < 2 powi (r + 53)"
    proof (cases "r = k - 1")
      case True
      then have e: "r + 53 = k + 52" by simp
      have "(2::rat) powi (r + 53) = p" unfolding e using Suc.prems by simp
      with npy show ?thesis by simp
    next
      case False
      with IH show ?thesis by simp
    qed
    show ?thesis unfolding res using IH upper by simp
  qed
qed

lemma qexp_range: "- 1074 \<le> qexp y" "qexp y \<le> 971"
  using qsearch_spec [of "2 ^ 1023" 971 2045 "\<bar>y\<bar>"] by (simp_all add: qexp_def)

lemma qexp_lower: "- 1074 < qexp y \<Longrightarrow> 2 powi (qexp y + 52) \<le> \<bar>y\<bar>"
  using qsearch_spec [of "2 ^ 1023" 971 2045 "\<bar>y\<bar>"] by (simp add: qexp_def)

lemma qexp_upper: "qexp y < 971 \<Longrightarrow> \<bar>y\<bar> < 2 powi (qexp y + 53)"
  using qsearch_spec [of "2 ^ 1023" 971 2045 "\<bar>y\<bar>"] by (simp add: qexp_def)

lemma qexp_eqI:
  assumes "- 1074 \<le> k" "k \<le> 971"
    and lo: "- 1074 < k \<Longrightarrow> 2 powi (k + 52) \<le> \<bar>y\<bar>"
    and hi: "k < 971 \<Longrightarrow> \<bar>y\<bar> < 2 powi (k + 53)"
  shows "qexp y = k"
proof (rule ccontr)
  assume ne: "qexp y \<noteq> k"
  show False
  proof (cases "qexp y < k")
    case True
    then have "\<bar>y\<bar> < 2 powi (qexp y + 53)" using assms(2) by (intro qexp_upper) simp
    also have "(2::rat) powi (qexp y + 53) \<le> 2 powi (k + 52)"
      using True by (intro power_int_increasing) simp_all
    also have "\<dots> \<le> \<bar>y\<bar>" using True qexp_range(1) [of y] by (intro lo) simp
    finally show False by simp
  next
    case False
    with ne have gt: "k < qexp y" by simp
    then have "\<bar>y\<bar> < 2 powi (k + 53)" using qexp_range(2) [of y] by (intro hi) simp
    also have "(2::rat) powi (k + 53) \<le> 2 powi (qexp y + 52)"
      using gt by (intro power_int_increasing) simp_all
    also have "\<dots> \<le> \<bar>y\<bar>" using gt assms(1) by (intro qexp_lower) simp
    finally show False by simp
  qed
qed

lemma pow2_pos: "0 < (2::rat) powi k"
  by simp

lemma pow2_split: "(2::rat) powi (k + 53) = 2 powi k * 2 ^ 53" "(2::rat) powi (k + 52) = 2 powi k * 2 ^ 52"
  by (simp_all add: power_int_add)

lemma round64_FiniteD:
  assumes "round64 y = Finite r"
  shows "r = of_int (round_half_even (y / 2 powi (qexp y))) * 2 powi (qexp y)"
    and "r < 2 ^ 1024" and "- (2 ^ 1024) < r"
  using assms by (simp_all add: round64_def Let_def split: if_splits)

lemma round64_repr:
  assumes "round64 y = Finite r"
  shows "repr r"
proof -
  define K where "K = qexp y"
  define q :: rat where "q = 2 powi K"
  define n where "n = round_half_even (y / q)"
  have q: "0 < q" by (simp add: q_def)
  have r: "r = of_int n * q" and fin: "r < 2 ^ 1024" "- (2 ^ 1024) < r"
    using round64_FiniteD [OF assms] by (simp_all add: n_def q_def K_def)
  have K: "- 1074 \<le> K" "K \<le> 971" using qexp_range [of y] by (simp_all add: K_def)
  have bound: "\<bar>n\<bar> \<le> 2 ^ 53"
  proof (cases "K < 971")
    case True
    then have "\<bar>y\<bar> < q * 2 ^ 53"
      using qexp_upper [of y] by (simp add: K_def q_def pow2_split)
    then have "\<bar>y\<bar> / q < 2 ^ 53" using q by (simp add: pos_divide_less_eq mult.commute)
    then have a: "\<bar>y / q\<bar> < 2 ^ 53" using q by simp
    have "y / q \<le> 2 ^ 53" "- (2 ^ 53) \<le> y / q" using a by linarith+
    then have up: "y / q \<le> of_int (2 ^ 53)" and lo: "of_int (- (2 ^ 53)) \<le> y / q"
      by simp_all
    have "n \<le> 2 ^ 53" unfolding n_def using up by (rule round_half_even_le)
    moreover have "- (2 ^ 53) \<le> n" unfolding n_def using lo by (rule round_half_even_ge)
    ultimately show ?thesis by simp
  next
    case False
    with K have K971: "K = 971" by simp
    have q971: "q = 2 ^ 971" by (simp add: q_def K971)
    have big: "(2::rat) ^ 1024 = 2 ^ 53 * q" unfolding q971 by (simp only: power_add [symmetric]) simp
    have "\<bar>r\<bar> < 2 ^ 1024" using fin by linarith
    then have "\<bar>of_int n\<bar> * q < 2 ^ 53 * q" using q by (simp only: r abs_mult big abs_of_pos)
    then have "\<bar>of_int n :: rat\<bar> < 2 ^ 53" using q by (simp only: mult_less_cancel_right_pos)
    then have "(of_int \<bar>n\<bar> :: rat) < of_int (2 ^ 53)" by simp
    then have "\<bar>n\<bar> < 2 ^ 53" by (simp only: of_int_less_iff)
    then show ?thesis by simp
  qed
  show ?thesis
  proof (cases "\<bar>n\<bar> < 2 ^ 53")
    case True
    then show ?thesis unfolding repr_def using r K by (auto simp: q_def)
  next
    case False
    with bound have "\<bar>n\<bar> = 2 ^ 53" by simp
    then have n: "n = 2 ^ 53 \<or> n = - (2 ^ 53)" by linarith
    have q1: "(2::rat) powi (K + 1) = q * 2" by (simp add: q_def power_int_add)
    have K1: "- 1074 \<le> K + 1" using K by simp
    from n show ?thesis
    proof
      assume "n = 2 ^ 53"
      then have "r = of_int (2 ^ 52) * 2 powi (K + 1)" by (simp add: r q1)
      moreover have "\<bar>2 ^ 52 :: int\<bar> < 2 ^ 53" by simp
      ultimately show ?thesis unfolding repr_def using K1 by blast
    next
      assume "n = - (2 ^ 53)"
      then have "r = of_int (- (2 ^ 52)) * 2 powi (K + 1)" by (simp add: r q1)
      moreover have "\<bar>- (2 ^ 52) :: int\<bar> < 2 ^ 53" by simp
      ultimately show ?thesis unfolding repr_def using K1 by blast
    qed
  qed
qed

lemma round64_ge:
  assumes s: "repr s" and le: "s \<le> y" and y0: "0 \<le> y" and y: "round64 y = Finite r"
  shows "s \<le> r"
proof -
  define K where "K = qexp y"
  define q :: rat where "q = 2 powi K"
  have q: "0 < q" by (simp add: q_def)
  have r: "r = of_int (round_half_even (y / q)) * q"
    using round64_FiniteD(1) [OF y] by (simp add: q_def K_def)
  obtain n k where n: "s = of_int n * 2 powi k" "\<bar>n\<bar> < 2 ^ 53" "- 1074 \<le> k"
    using s unfolding repr_def by blast
  show ?thesis
  proof (cases "K \<le> k")
    case True
    define N where "N = n * 2 ^ nat (k - K)"
    have "(2::rat) powi (k - K) = 2 powi k / q" unfolding q_def by (rule power_int_diff) simp
    moreover have "(2::rat) powi (k - K) = 2 ^ nat (k - K)"
      using True by (intro power_int_nonneg_exp) simp
    ultimately have sq: "s / q = of_int N" by (simp add: n(1) N_def)
    have "s / q \<le> y / q" using le q by (simp add: divide_right_mono)
    then have "N \<le> round_half_even (y / q)" unfolding sq by (rule round_half_even_ge)
    then have "(of_int N :: rat) \<le> of_int (round_half_even (y / q))" by simp
    then have "of_int N * q \<le> of_int (round_half_even (y / q)) * q"
      using q by (simp only: mult_le_cancel_right_pos)
    moreover have "of_int N * q = s" using sq q by (simp add: field_simps)
    ultimately show ?thesis by (simp add: r)
  next
    case False
    then have kK: "k + 53 \<le> K + 52" by simp
    from False n(3) have "- 1074 < qexp y" by (simp add: K_def)
    then have "2 powi (K + 52) \<le> \<bar>y\<bar>" unfolding K_def by (rule qexp_lower)
    then have lo: "q * 2 ^ 52 \<le> y" using y0 by (simp add: q_def pow2_split)
    then have "of_int (2 ^ 52) \<le> y / q" using q by (simp add: pos_le_divide_eq mult.commute)
    then have "2 ^ 52 \<le> round_half_even (y / q)" by (rule round_half_even_ge)
    then have "(of_int (2 ^ 52) :: rat) \<le> of_int (round_half_even (y / q))"
      by (simp only: of_int_le_iff)
    then have "of_int (2 ^ 52) * q \<le> r"
      unfolding r using q by (simp only: mult_le_cancel_right_pos)
    then have rlo: "2 powi (K + 52) \<le> r" by (simp add: q_def pow2_split mult.commute)
    have "of_int n < (2::rat) ^ 53"
    proof -
      have "n < 2 ^ 53" using n(2) by simp
      then have "(of_int n :: rat) < of_int (2 ^ 53)" by (simp only: of_int_less_iff)
      then show ?thesis by simp
    qed
    then have "of_int n * 2 powi k < 2 ^ 53 * (2::rat) powi k"
      using pow2_pos [of k] by (simp only: mult_less_cancel_right_pos)
    then have "s < 2 powi (k + 53)" by (simp add: n(1) pow2_split mult.commute)
    also have "(2::rat) powi (k + 53) \<le> 2 powi (K + 52)"
      using kK by (intro power_int_increasing) simp_all
    finally show ?thesis using rlo by simp
  qed
qed

lemma round64_nonneg:
  assumes "0 \<le> y"
  shows "round64 y \<noteq> NegInfinity"
proof -
  have "of_int 0 \<le> y / 2 powi (qexp y)" using assms by simp
  then have "0 \<le> round_half_even (y / 2 powi (qexp y))" by (rule round_half_even_ge)
  then have "(0::rat) \<le> of_int (round_half_even (y / 2 powi (qexp y))) * 2 powi (qexp y)"
    by simp
  moreover have "- ((2::rat) ^ 1024) < 0" by simp
  ultimately have "\<not> of_int (round_half_even (y / 2 powi (qexp y))) * 2 powi (qexp y)
      \<le> - ((2::rat) ^ 1024)"
    by linarith
  then show ?thesis by (simp add: round64_def Let_def)
qed

lemma round64_eqI:
  assumes k: "- 1074 \<le> k" "k \<le> 971"
    and lo: "- 1074 < k \<Longrightarrow> 2 powi (k + 52) \<le> \<bar>y\<bar>"
    and hi: "k < 971 \<Longrightarrow> \<bar>y\<bar> < 2 powi (k + 53)"
    and n: "round_half_even (y / 2 powi k) = n"
    and r: "r = of_int n * 2 powi k" and fin: "\<bar>r\<bar> < 2 ^ 1024"
  shows "round64 y = Finite r"
proof -
  have K: "qexp y = k" using k lo hi by (rule qexp_eqI)
  have "\<not> 2 ^ 1024 \<le> r" "\<not> r \<le> - (2 ^ 1024)" using fin by linarith+
  then show ?thesis by (simp add: round64_def K n r)
qed

lemma round64_of_int:
  assumes "\<bar>n\<bar> < 2 ^ 53"
  shows "round64 (of_int n) = Finite (of_int n)"
proof -
  define y :: rat where "y = of_int n"
  define K where "K = qexp y"
  have ylt: "\<bar>y\<bar> < 2 ^ 53"
  proof -
    have "(of_int \<bar>n\<bar> :: rat) < of_int (2 ^ 53)" using assms by (simp only: of_int_less_iff)
    then show ?thesis by (simp add: y_def)
  qed
  have K0: "K \<le> 0"
  proof (rule ccontr)
    assume "\<not> K \<le> 0"
    then have pos: "0 < K" by simp
    then have "2 powi (K + 52) \<le> \<bar>y\<bar>" unfolding K_def by (intro qexp_lower) simp
    moreover have "(2::rat) powi 53 \<le> 2 powi (K + 52)"
      using pos by (intro power_int_increasing) simp_all
    ultimately show False using ylt by simp
  qed
  have "(2::rat) powi (0 - K) = 2 powi 0 / 2 powi K" by (rule power_int_diff) simp
  moreover have "(2::rat) powi (0 - K) = 2 ^ nat (0 - K)"
    using K0 by (intro power_int_nonneg_exp) simp
  ultimately have inv: "1 / (2::rat) powi K = 2 ^ nat (0 - K)" by simp
  define N where "N = n * 2 ^ nat (0 - K)"
  have "y / 2 powi K = y * (1 / 2 powi K)" by simp
  then have yq: "y / 2 powi K = of_int N" unfolding inv by (simp add: y_def N_def)
  have "round_half_even (y / 2 powi K) = N" unfolding yq by (rule round_half_even_of_int)
  moreover have "of_int N * 2 powi K = y" using yq by (simp add: field_simps)
  ultimately have "of_int (round_half_even (y / 2 powi K)) * 2 powi K = y" by simp
  moreover have "(2::rat) ^ 53 \<le> 2 ^ 1024" by (rule power_increasing) simp_all
  then have "\<not> 2 ^ 1024 \<le> y" "\<not> y \<le> - (2 ^ 1024)" using ylt by linarith+
  ultimately show ?thesis by (simp add: round64_def K_def y_def)
qed

lemma floor_rat_numeral: "\<lfloor>(numeral a :: rat) / numeral b\<rfloor> = numeral a div numeral b"
  using floor_divide_of_int_eq [of "numeral a" "numeral b", where ?'a = rat] by simp

lemma round64_numeral [simp]:
  "(numeral w :: int) < 2 ^ 53 \<Longrightarrow> round64 (numeral w) = Finite (numeral w)"
  using round64_of_int [of "numeral w"] by simp

lemma round64_zero [simp]: "round64 0 = Finite 0"
  using round64_of_int [of 0] by simp

lemma round64_tenth: "round64 (3602879701896397 / 36028797018963968) = Finite (3602879701896397 / 36028797018963968)"
  by (rule round64_eqI [of "- 56" _ 7205759403792794]) (simp_all add: round_half_even_def Let_def floor_rat_numeral)

lemma add64_tenth_seven_tenths: "add64 (3602879701896397 / 36028797018963968) (3152519739159347 / 4503599627370496) = Finite (7205759403792793 / 9007199254740992)"
  unfolding add64_def
  by (rule round64_eqI [of "- 53" _ 7205759403792793]) (simp_all add: round_half_even_def Let_def floor_rat_numeral)

section \<open>Playback scheduling\<close>

lemma schedule_audio_cases:
  "schedule_audio decode t m st = Inr st' \<Longrightarrow>
     (st' = st \<and> \<not> (truthy (inlineData m) \<and> audioContextRef st)) \<or>
     (\<exists>d s. truthy (inlineData m) \<and> audioContextRef st \<and> decode (the (inlineData m)) = Inr d \<and>
        js_max t (nextStartTimeRef st) = Finite s \<and> 0 \<le> s \<and>
        st' = st\<lparr>scheduled := scheduled st @ [(s, d)], nextStartTimeRef := add64 s d\<rparr>)"
  by (auto simp: schedule_audio_def split: if_splits sum.splits number.splits)

lemma append_transcription_playback [simp]:
  "scheduled (append_transcription m st) = scheduled st"
  "nextStartTimeRef (append_transcription m st) = nextStartTimeRef st"
  by (simp_all add: append_transcription_def setCurrentTranscription_def)

lemma complete_turn_playback [simp]:
  "scheduled (complete_turn cap n m st) = scheduled st"
  "nextStartTimeRef (complete_turn cap n m st) = nextStartTimeRef st"
  by (simp_all add: complete_turn_def setCurrentTranscription_def setMessages_def Let_def)

lemma onmessage_playback:
  "(scheduled (onmessage decode cap (t, n, m) st) = scheduled st \<and>
    nextStartTimeRef (onmessage decode cap (t, n, m) st) = nextStartTimeRef st) \<or>
   (\<exists>d s. decode (the (inlineData m)) = Inr d \<and>
      js_max t (nextStartTimeRef st) = Finite s \<and> 0 \<le> s \<and>
      scheduled (onmessage decode cap (t, n, m) st) = scheduled st @ [(s, d)] \<and>
      nextStartTimeRef (onmessage decode cap (t, n, m) st) = add64 s d)"
proof (cases "schedule_audio decode t m st")
  case (Inl e)
  then show ?thesis by (simp add: onmessage_def handleServerMessage_def)
next
  case (Inr st1)
  from schedule_audio_cases [OF Inr] show ?thesis
    using Inr by (auto simp: onmessage_def handleServerMessage_def)
qed

lemma onmessage_frame:
  assumes "truthy (inlineData m)" "audioContextRef st" "decode (the (inlineData m)) = Inr d"
    "js_max t (nextStartTimeRef st) = Finite s" "0 \<le> s"
  shows "scheduled (onmessage decode cap (t, n, m) st) = scheduled st @ [(s, d)]"
    and "nextStartTimeRef (onmessage decode cap (t, n, m) st) = add64 s d"
proof -
  have "schedule_audio decode t m st =
    Inr (st\<lparr>scheduled := scheduled st @ [(s, d)], nextStartTimeRef := add64 s d\<rparr>)"
    using assms by (simp add: schedule_audio_def)
  then show "scheduled (onmessage decode cap (t, n, m) st) = scheduled st @ [(s, d)]"
    and "nextStartTimeRef (onmessage decode cap (t, n, m) st) = add64 s d"
    by (simp_all add: onmessage_def handleServerMessage_def)
qed

lemma js_max_at_most: "js_max t c = Finite s \<Longrightarrow> at_most c s"
  by (cases c) (auto simp: js_max_def at_most_def)

lemma chained_snoc:
  assumes "chained sch c" and "at_most c s"
  shows "chained (sch @ [(s, d)]) (add64 s d)"
  unfolding chained_def
proof (intro conjI allI impI)
  fix i assume i: "Suc i < length (sch @ [(s, d)])"
  show "at_most (add64 (fst ((sch @ [(s, d)]) ! i)) (snd ((sch @ [(s, d)]) ! i)))
          (fst ((sch @ [(s, d)]) ! Suc i))"
  proof (cases "Suc i < length sch")
    case True
    then show ?thesis using assms(1) by (simp add: chained_def nth_append)
  next
    case False
    with i have eq: "Suc i = length sch" by simp
    then have ne: "sch \<noteq> []" by auto
    have "sch ! i = last sch" using eq ne by (metis diff_Suc_1 last_conv_nth)
    moreover have "c = add64 (fst (last sch)) (snd (last sch))"
      using assms(1) ne by (simp add: chained_def)
    ultimately show ?thesis using assms(2) eq by (simp add: nth_append)
  qed
next
  show "add64 s d = add64 (fst (last (sch @ [(s, d)]))) (snd (last (sch @ [(s, d)])))" by simp
qed

lemma onmessage_chained:
  assumes "chained (scheduled st) (nextStartTimeRef st)"
  shows "chained (scheduled (onmessage decode cap ev st))
    (nextStartTimeRef (onmessage decode cap ev st))"
proof -
  obtain t n m where ev: "ev = (t, n, m)" by (cases ev) auto
  from onmessage_playback [of decode cap t n m st] show ?thesis
    using assms chained_snoc [OF assms js_max_at_most] by (auto simp: ev)
qed

lemma deliver_chained:
  "chained (scheduled st) (nextStartTimeRef st) \<Longrightarrow>
   chained (scheduled (deliver decode cap evs st)) (nextStartTimeRef (deliver decode cap evs st))"
  by (induction evs arbitrary: st) (simp_all add: onmessage_chained)

lemma is_binary64_repr: "is_binary64 x \<Longrightarrow> repr x"
  unfolding is_binary64_def by (rule round64_repr)

lemma js_max_repr:
  assumes "js_max t c = Finite s" "is_binary64 t" "\<forall>x. c = Finite x \<longrightarrow> repr x"
  shows "repr s"
  using assms is_binary64_repr [of t]
  by (cases c) (auto simp: js_max_def max_def split: if_splits)

lemma onmessage_groomed:
  assumes dec: "\<forall>b d. decode b = Inr d \<longrightarrow> 0 \<le> d" and clock: "is_binary64 (fst ev)"
    and g: "groomed (scheduled st) (nextStartTimeRef st)"
  shows "groomed (scheduled (onmessage decode cap ev st))
    (nextStartTimeRef (onmessage decode cap ev st))"
proof -
  obtain t n m where ev: "ev = (t, n, m)" by (cases ev) auto
  from onmessage_playback [of decode cap t n m st] show ?thesis
  proof
    assume "scheduled (onmessage decode cap (t, n, m) st) = scheduled st \<and>
      nextStartTimeRef (onmessage decode cap (t, n, m) st) = nextStartTimeRef st"
    then show ?thesis using g by (simp add: ev)
  next
    assume "\<exists>d s. decode (the (inlineData m)) = Inr d \<and>
      js_max t (nextStartTimeRef st) = Finite s \<and> 0 \<le> s \<and>
      scheduled (onmessage decode cap (t, n, m) st) = scheduled st @ [(s, d)] \<and>
      nextStartTimeRef (onmessage decode cap (t, n, m) st) = add64 s d"
    then obtain d s where d: "decode (the (inlineData m)) = Inr d"
      and s: "js_max t (nextStartTimeRef st) = Finite s" "0 \<le> s"
      and sch: "scheduled (onmessage decode cap (t, n, m) st) = scheduled st @ [(s, d)]"
      and cur: "nextStartTimeRef (onmessage decode cap (t, n, m) st) = add64 s d"
      by blast
    have d0: "0 \<le> d" using dec d by blast
    have "is_binary64 t" using clock by (simp add: ev)
    moreover have "\<forall>x. nextStartTimeRef st = Finite x \<longrightarrow> repr x"
      using g by (simp add: groomed_def)
    ultimately have rs: "repr s" using s(1) by (intro js_max_repr [of t _ s])
    have "\<forall>c. add64 s d = Finite c \<longrightarrow> repr c"
      by (auto simp: add64_def intro: round64_repr)
    then show ?thesis using g d0 rs s(2) by (simp add: ev sch cur groomed_def)
  qed
qed

lemma deliver_groomed:
  "\<forall>b d. decode b = Inr d \<longrightarrow> 0 \<le> d \<Longrightarrow> \<forall>ev \<in> set evs. is_binary64 (fst ev) \<Longrightarrow>
   groomed (scheduled st) (nextStartTimeRef st) \<Longrightarrow>
   groomed (scheduled (deliver decode cap evs st)) (nextStartTimeRef (deliver decode cap evs st))"
proof (induction evs arbitrary: st)
  case Nil
  then show ?case by simp
next
  case (Cons ev evs)
  have "groomed (scheduled (onmessage decode cap ev st))
      (nextStartTimeRef (onmessage decode cap ev st))"
    using Cons.prems by (intro onmessage_groomed) simp_all
  then show ?case using Cons.prems by (simp add: Cons.IH)
qed

lemma chained_sorted:
  assumes "chained sch c" and "groomed sch c'"
  shows "sorted (map fst sch)"
proof -
  have "fst (sch ! i) \<le> fst (sch ! Suc i)" if i: "Suc i < length sch" for i
  proof -
    define s where "s = fst (sch ! i)"
    define d where "d = snd (sch ! i)"
    have "sch ! i \<in> set sch" using i by simp
    then have sd: "repr s" "0 \<le> s" "0 \<le> d"
      using assms(2) by (simp_all add: groomed_def s_def d_def)
    have am: "at_most (round64 (s + d)) (fst (sch ! Suc i))"
      using assms(1) i by (simp add: chained_def s_def d_def add64_def)
    show ?thesis
    proof (cases "round64 (s + d)")
      case (Finite r)
      have "s \<le> r" using sd by (intro round64_ge [OF _ _ _ Finite]) simp_all
      moreover have "r \<le> fst (sch ! Suc i)" using am Finite by (simp add: at_most_def)
      ultimately show ?thesis by (simp add: s_def)
    next
      case PosInfinity
      with am show ?thesis by (simp add: at_most_def)
    next
      case NegInfinity
      moreover have "round64 (s + d) \<noteq> NegInfinity" using sd by (intro round64_nonneg) simp
      ultimately show ?thesis by simp
    qed
  qed
  then show ?thesis by (simp add: sorted_iff_nth_Suc)
qed

lemma add64_zero_left: "is_binary64 x \<Longrightarrow> add64 0 x = Finite x"
  by (simp add: add64_def is_binary64_def)

lemma is_binary64_numeral [simp]: "(numeral w :: int) < 2 ^ 53 \<Longrightarrow> is_binary64 (numeral w)"
  by (simp add: is_binary64_def)

lemma is_binary64_zero [simp]: "is_binary64 0"
  by (simp add: is_binary64_def)

lemma is_binary64_tenth: "is_binary64 (3602879701896397 / 36028797018963968)"
  unfolding is_binary64_def by (rule round64_tenth)

lemma is_binary64_seven_tenths: "is_binary64 (3152519739159347 / 4503599627370496)"
  unfolding is_binary64_def
  by (rule round64_eqI [of "- 53" _ 6305039478318694])
    (simp_all add: round_half_even_def Let_def floor_rat_numeral)

lemma three_frames_scheduled:
  "scheduled (deliver pcm_seconds (render_of initial_state) three_frames
           (initial_state\<lparr>audioContextRef := True\<rparr>)) = [(5, 2), (7, 3), (20, 1)]"
  by (simp add: three_frames_def onmessage_def handleServerMessage_def schedule_audio_def
      append_transcription_def complete_turn_def AudioFrame_def truthy_def pcm_seconds_def
      initial_state_def js_max_def add64_def)

lemma burst_scheduled:
  "scheduled (deliver tenths (render_of initial_state) burst
           (initial_state\<lparr>audioContextRef := True\<rparr>)) =
     [(0, 3602879701896397 / 36028797018963968),
      (3602879701896397 / 36028797018963968, 3152519739159347 / 4503599627370496),
      (7205759403792793 / 9007199254740992, 3602879701896397 / 36028797018963968)]"
  by (simp add: burst_def onmessage_def handleServerMessage_def schedule_audio_def
      append_transcription_def complete_turn_def AudioFrame_def truthy_def tenths_def
      initial_state_def js_max_def add64_zero_left is_binary64_tenth
      add64_tenth_seven_tenths)

text \<open>
  Claim C1, as stated, fails on the sum. Three frames arrive together at clock reading
  0: one of 0.1 seconds, one of 0.7 seconds, one of 0.1 seconds. The second starts at
  0.1 and the cursor moves to \<^verbatim>\<open>0.1 + 0.7\<close>, which as a sum of Numbers is
  \<^verbatim>\<open>0.7999999999999999\<close>, below the exact sum of the two. The third frame starts there:
  before the second one, by its exact duration, has ended.
\<close>

theorem playback_end_rounds_below_exact_sum:
  "is_binary64 (3602879701896397 / 36028797018963968) \<and>
   is_binary64 (3152519739159347 / 4503599627370496) \<and>
   scheduled (deliver tenths (render_of initial_state) burst
           (initial_state\<lparr>audioContextRef := True\<rparr>)) =
     [(0, 3602879701896397 / 36028797018963968),
      (3602879701896397 / 36028797018963968, 3152519739159347 / 4503599627370496),
      (7205759403792793 / 9007199254740992, 3602879701896397 / 36028797018963968)] \<and>
   (7205759403792793 / 9007199254740992 :: rat) <
     3602879701896397 / 36028797018963968 + 3152519739159347 / 4503599627370496"
  using is_binary64_tenth is_binary64_seven_tenths burst_scheduled by simp

text \<open>
  Claim C1, amended. The cursor of a mounted component is 0. Every audio frame that
  decodes is scheduled at the maximum of the clock reading and the cursor, and the
  cursor moves to the sum of that start and the frame's duration as Numbers add, that
  is to the exact sum rounded. So for every sequence of handler steps, at whatever
  clock readings, that rounded sum of a scheduled frame is finite and no later than the
  start of the next scheduled frame; and where durations are not negative and the
  clock readings and the first cursor are Numbers, the start times never decrease.
\<close>

theorem playback_starts_follow_the_cursor:
  "nextStartTimeRef initial_state = Finite 0 \<and>
   (truthy (inlineData m) \<and> audioContextRef st \<and> decode (the (inlineData m)) = Inr d \<and>
    js_max t (nextStartTimeRef st) = Finite s \<and> 0 \<le> s \<longrightarrow>
      scheduled (onmessage decode cap (t, n, m) st) = scheduled st @ [(s, d)] \<and>
      nextStartTimeRef (onmessage decode cap (t, n, m) st) = add64 s d) \<and>
   (scheduled st = [] \<longrightarrow>
      (\<forall>i. Suc i < length (scheduled (deliver decode cap evs st)) \<longrightarrow>
         at_most
           (add64 (fst (scheduled (deliver decode cap evs st) ! i))
                  (snd (scheduled (deliver decode cap evs st) ! i)))
           (fst (scheduled (deliver decode cap evs st) ! Suc i))) \<and>
      ((\<forall>b d. decode b = Inr d \<longrightarrow> 0 \<le> d) \<and> (\<forall>ev \<in> set evs. is_binary64 (fst ev)) \<and>
       is_number (nextStartTimeRef st) \<longrightarrow>
         sorted (map fst (scheduled (deliver decode cap evs st)))))"
proof (intro conjI impI)
  show "nextStartTimeRef initial_state = Finite 0" by (simp add: initial_state_def)
next
  assume "truthy (inlineData m) \<and> audioContextRef st \<and> decode (the (inlineData m)) = Inr d \<and>
    js_max t (nextStartTimeRef st) = Finite s \<and> 0 \<le> s"
  then show "scheduled (onmessage decode cap (t, n, m) st) = scheduled st @ [(s, d)]"
    and "nextStartTimeRef (onmessage decode cap (t, n, m) st) = add64 s d"
    by (simp_all add: onmessage_frame)
next
  assume empty: "scheduled st = []"
  then have start: "chained (scheduled st) (nextStartTimeRef st)" by (simp add: chained_def)
  have ch: "chained (scheduled (deliver decode cap evs st))
     (nextStartTimeRef (deliver decode cap evs st))"
    using deliver_chained [OF start] .
  then show "\<forall>i. Suc i < length (scheduled (deliver decode cap evs st)) \<longrightarrow>
         at_most
           (add64 (fst (scheduled (deliver decode cap evs st) ! i))
                  (snd (scheduled (deliver decode cap evs st) ! i)))
           (fst (scheduled (deliver decode cap evs st) ! Suc i))"
    by (simp add: chained_def)
  assume hyp: "(\<forall>b d. decode b = Inr d \<longrightarrow> 0 \<le> d) \<and> (\<forall>ev \<in> set evs. is_binary64 (fst ev)) \<and>
       is_number (nextStartTimeRef st)"
  then have "\<forall>c. nextStartTimeRef st = Finite c \<longrightarrow> repr c"
    by (auto simp: is_number_def intro: is_binary64_repr)
  then have "groomed (scheduled st) (nextStartTimeRef st)" using empty by (simp add: groomed_def)
  then have "groomed (scheduled (deliver decode cap evs st))
      (nextStartTimeRef (deliver decode cap evs st))"
    using hyp by (intro deliver_groomed) simp_all
  with ch show "sorted (map fst (scheduled (deliver decode cap evs st)))"
    by (rule chained_sorted)
qed

theorem playback_starts_follow_the_cursor_witness:
  "scheduled (initial_state\<lparr>audioContextRef := True\<rparr>) = [] \<and>
   truthy (inlineData (AudioFrame ''abcd'')) \<and>
   audioContextRef (initial_state\<lparr>audioContextRef := True\<rparr>) \<and>
   pcm_seconds (the (inlineData (AudioFrame ''abcd''))) = Inr 2 \<and>
   js_max 5 (nextStartTimeRef (initial_state\<lparr>audioContextRef := True\<rparr>)) = Finite 5 \<and>
   is_binary64 5 \<and> is_binary64 6 \<and> is_binary64 20 \<and>
   is_number (nextStartTimeRef (initial_state\<lparr>audioContextRef := True\<rparr>)) \<and>
   scheduled (onmessage pcm_seconds (render_of initial_state) (5, 0, AudioFrame ''abcd'')
     (initial_state\<lparr>audioContextRef := True\<rparr>)) = [(5, 2)] \<and>
   nextStartTimeRef (onmessage pcm_seconds (render_of initial_state) (5, 0, AudioFrame ''abcd'')
     (initial_state\<lparr>audioContextRef := True\<rparr>)) = Finite 7 \<and>
   scheduled (deliver pcm_seconds (render_of initial_state) three_frames
     (initial_state\<lparr>audioContextRef := True\<rparr>)) = [(5, 2), (7, 3), (20, 1)] \<and>
   sorted (map fst (scheduled (deliver pcm_seconds (render_of initial_state) three_frames
     (initial_state\<lparr>audioContextRef := True\<rparr>))))"
proof -
  have nonneg: "\<forall>b d. pcm_seconds b = Inr d \<longrightarrow> 0 \<le> d"
    by (auto simp: pcm_seconds_def split: if_splits)
  have clocks: "\<forall>ev \<in> set three_frames. is_binary64 (fst ev)"
    by (simp add: three_frames_def)
  have start: "scheduled (initial_state\<lparr>audioContextRef := True\<rparr>) = [] \<and>
      is_number (nextStartTimeRef (initial_state\<lparr>audioContextRef := True\<rparr>))"
    by (simp add: initial_state_def is_number_def)
  have frame: "truthy (inlineData (AudioFrame ''abcd'')) \<and>
      audioContextRef (initial_state\<lparr>audioContextRef := True\<rparr>) \<and>
      pcm_seconds (the (inlineData (AudioFrame ''abcd''))) = Inr 2 \<and>
      js_max 5 (nextStartTimeRef (initial_state\<lparr>audioContextRef := True\<rparr>)) = Finite 5"
    by (simp add: AudioFrame_def truthy_def pcm_seconds_def js_max_def initial_state_def)
  have sum: "add64 5 2 = Finite 7" by (simp add: add64_def)
  from playback_starts_follow_the_cursor
    [of "AudioFrame ''abcd''" "initial_state\<lparr>audioContextRef := True\<rparr>" pcm_seconds 2
        5 5 "render_of initial_state" 0 three_frames]
  show ?thesis
    using nonneg clocks start frame sum three_frames_scheduled by simp
qed

section \<open>Frames that fail to decode\<close>

lemma deliver_append:
  "deliver decode cap (xs @ ys) st = deliver decode cap ys (deliver decode cap xs st)"
  by (induction xs arbitrary: st) simp_all

lemma onmessage_audioContextRef [simp]:
  "audioContextRef (onmessage decode cap ev st) = audioContextRef st"
  by (cases ev)
    (auto simp: onmessage_def handleServerMessage_def schedule_audio_def append_transcription_def
      complete_turn_def setCurrentTranscription_def setMessages_def Let_def
      split: sum.splits if_splits number.splits)

lemma deliver_audioContextRef [simp]:
  "audioContextRef (deliver decode cap evs st) = audioContextRef st"
  by (induction evs arbitrary: st) simp_all

lemma onmessage_decode_fails:
  "truthy (inlineData m) \<Longrightarrow> audioContextRef st \<Longrightarrow> decode (the (inlineData m)) = Inl e \<Longrightarrow>
   onmessage decode cap (t, n, m) st = st"
  by (simp add: onmessage_def handleServerMessage_def schedule_audio_def)

text \<open>
  A message whose audio fails to decode leaves the state as it was, and the other
  handler steps go as if it had not arrived.
\<close>

lemma decode_failure_is_skipped:
  "truthy (inlineData m) \<Longrightarrow> audioContextRef st \<Longrightarrow> decode (the (inlineData m)) = Inl e \<Longrightarrow>
   deliver decode cap (pre @ (t, n, m) # post) st = deliver decode cap (pre @ post) st"
  by (simp add: deliver_append onmessage_decode_fails)

lemma connected_state_facts:
  "0 < length (transports connected_state) \<and> status (transports connected_state ! 0) = Open \<and>
   audioContextRef connected_state \<and> scheduled connected_state = [] \<and>
   nextStartTimeRef connected_state = Finite 0 \<and>
   console connected_state = [Log ''Gemini Live Session Opened'']"
  by code_simp

lemma five_frames_delivered:
  "deliver pcm_seconds cap five_frames connected_state =
     connected_state\<lparr>scheduled := [(0, 2), (2, 1), (10, 2), (12, 1)],
                      nextStartTimeRef := Finite 13\<rparr>"
  using connected_state_facts
  by (simp add: five_frames_def onmessage_def handleServerMessage_def schedule_audio_def
      append_transcription_def complete_turn_def AudioFrame_def truthy_def pcm_seconds_def
      js_max_def add64_def)

text \<open>
  Claim C9 does not hold of the code. A session of a freshly mounted component delivers
  five audio frames of which the third is malformed. Frames 1, 2, 4 and 5 are scheduled
  and the cursor passes the gap, as the claim says; but the handler has no \<^verbatim>\<open>try\<close> around
  the decoding and calls no \<^verbatim>\<open>console\<close> function, and \<^verbatim>\<open>onmessage\<close> drops its promise: the
  console holds the one line written when the session opened, and no warning. The
  rejection also ends the handler before it looks at the rest of the message: a
  malformed frame that comes with a piece of the transcript and the turn-complete
  marker leaves the whole state as it was.
\<close>

theorem malformed_frame_is_not_reported:
  "console (session_messages pcm_seconds 0 five_frames connected_state) =
     [Log ''Gemini Live Session Opened''] \<and>
   scheduled (session_messages pcm_seconds 0 five_frames connected_state) =
     [(0, 2), (2, 1), (10, 2), (12, 1)] \<and>
   nextStartTimeRef (session_messages pcm_seconds 0 five_frames connected_state) = Finite 13 \<and>
   session_messages pcm_seconds 0 [(0, 1000, malformed_with_text)] connected_state =
     connected_state"
proof -
  have "truthy (inlineData malformed_with_text)"
    "pcm_seconds (the (inlineData malformed_with_text)) = Inl (Error ''odd byte length'')"
    by (simp_all add: malformed_with_text_def truthy_def pcm_seconds_def)
  then have "onmessage pcm_seconds cap (0, 1000, malformed_with_text) connected_state =
      connected_state" for cap
    using connected_state_facts by (intro onmessage_decode_fails) simp_all
  then show ?thesis
    using connected_state_facts by (simp add: session_messages_def five_frames_delivered)
qed

section \<open>Transcript\<close>

text \<open>
  A session that was started while the buffer was empty or white space only appends no
  Turn at all, whatever it delivers: its handler tests the text of its own render.
\<close>

lemma deliver_blank_capture:
  "trim (r_currentTranscription cap) = [] \<Longrightarrow>
   messages (deliver decode cap evs st) = messages st"
proof (induction evs arbitrary: st)
  case Nil
  show ?case by simp
next
  case (Cons ev evs)
  have "messages (onmessage decode cap ev st) = messages st"
    using Cons.prems
    by (cases ev)
      (auto simp: onmessage_def handleServerMessage_def schedule_audio_def
        append_transcription_def complete_turn_def setCurrentTranscription_def Let_def
        split: sum.splits if_splits number.splits)
  with Cons.IH [OF Cons.prems] show ?case by simp
qed

text \<open>
  Claim C2 does not hold of the code. A freshly mounted component starts a session, the
  session opens and delivers the delta \<open>''Hello ''\<close>, the delta \<open>''world''\<close> and the
  turn-complete marker. The callbacks of the session are closures of the render in which
  it was started, and there \<^verbatim>\<open>currentTranscription\<close> was empty. The deltas reach the
  buffer through \<^verbatim>\<open>setCurrentTranscription(prev => ...)\<close>, but the marker reads the empty
  \<^verbatim>\<open>finalTranscript\<close> of its closure: no Turn is appended, and the buffer keeps
  \<open>''Hello world''\<close>.
\<close>

theorem hello_world_is_never_finalized:
  "callbacks (transports connected_state ! 0) = render_of initial_state \<and>
   messages (session_messages pcm_seconds 0
     [(0, 1000, TranscriptDelta ''Hello ''), (0, 1001, TranscriptDelta ''world''),
      (0, 1002, TurnComplete)] connected_state) = [] \<and>
   currentTranscription (session_messages pcm_seconds 0
     [(0, 1000, TranscriptDelta ''Hello ''), (0, 1001, TranscriptDelta ''world''),
      (0, 1002, TurnComplete)] connected_state) = ''Hello world''"
  by code_simp

text \<open>
  Claim C3, as stated, fails on the reset. In a session of a freshly mounted component
  the buffer holds two spaces when the turn-complete marker arrives; \<^verbatim>\<open>trim()\<close> of the
  text is empty, the branch that appends a Turn and resets the buffer is not taken, and
  the buffer still holds the two spaces afterwards.
\<close>

theorem blank_buffer_is_not_reset:
  "trim (currentTranscription (session_messages pcm_seconds 0
     [(0, 1000, TranscriptDelta ''  '')] connected_state)) = [] \<and>
   currentTranscription (session_messages pcm_seconds 0
     [(0, 1000, TranscriptDelta ''  ''), (0, 1001, TurnComplete)] connected_state) = ''  ''"
  by code_simp

text \<open>
  Claim C3, amended. When a turn-complete marker arrives while the buffer is empty or
  white space only, in a session that was started while the buffer was empty or white
  space only, nothing changes: no Turn is appended and the buffer is left as it is, an
  empty one empty and a blank one blank.
\<close>

theorem blank_turn_complete_changes_nothing:
  "trim (currentTranscription st) = [] \<and> trim (r_currentTranscription cap) = [] \<longrightarrow>
     onmessage decode cap (t, n, TurnComplete) st = st"
  by (simp add: onmessage_def handleServerMessage_def schedule_audio_def append_transcription_def
      complete_turn_def TurnComplete_def truthy_def)

theorem blank_turn_complete_changes_nothing_witness:
  "trim (currentTranscription (initial_state\<lparr>currentTranscription := ''  ''\<rparr>)) = [] \<and>
   trim (r_currentTranscription (render_of initial_state)) = [] \<and>
   messages (onmessage pcm_seconds (render_of initial_state) (0, 1000, TurnComplete)
     (initial_state\<lparr>currentTranscription := ''  ''\<rparr>)) = [] \<and>
   currentTranscription (onmessage pcm_seconds (render_of initial_state) (0, 1000, TurnComplete)
     (initial_state\<lparr>currentTranscription := ''  ''\<rparr>)) = ''  ''"
proof -
  have prem: "trim (currentTranscription (initial_state\<lparr>currentTranscription := ''  ''\<rparr>)) = [] \<and>
      trim (r_currentTranscription (render_of initial_state)) = []"
    by code_simp
  from blank_turn_complete_changes_nothing
    [of "initial_state\<lparr>currentTranscription := ''  ''\<rparr>" "render_of initial_state"
        pcm_seconds 0 1000]
  show ?thesis using prem by (simp add: initial_state_def)
qed

section \<open>Teardown\<close>

lemma stopMediaProcessing_refs [simp]:
  "frameIntervalRef (stopMediaProcessing st) = None"
  "processorRef (stopMediaProcessing st) = None"
  "sourceRef (stopMediaProcessing st) = None"
  by (simp_all add: stopMediaProcessing_def Let_def split: option.splits)

lemma stopMediaProcessing_frame [simp]:
  "streamRef (stopMediaProcessing st) = streamRef st"
  "sessionRef (stopMediaProcessing st) = sessionRef st"
  "sessionPromiseRef (stopMediaProcessing st) = sessionPromiseRef st"
  "messages (stopMediaProcessing st) = messages st"
  "currentTranscription (stopMediaProcessing st) = currentTranscription st"
  "connectionState (stopMediaProcessing st) = connectionState st"
  "connWrites (stopMediaProcessing st) = connWrites st"
  "errorMsg (stopMediaProcessing st) = errorMsg st"
  "transports (stopMediaProcessing st) = transports st"
  "streams (stopMediaProcessing st) = streams st"
  "console (stopMediaProcessing st) = console st"
  by (simp_all add: stopMediaProcessing_def Let_def split: option.splits)

lemma stopMediaProcessing_idle:
  "frameIntervalRef st = None \<Longrightarrow> processorRef st = None \<Longrightarrow> sourceRef st = None \<Longrightarrow>
   stopMediaProcessing st = st"
  by (simp add: stopMediaProcessing_def)

lemma stopSession_refs [simp]:
  "streamRef (stopSession c st) = None"
  "sessionRef (stopSession c st) = None"
  "frameIntervalRef (stopSession c st) = None"
  "processorRef (stopSession c st) = None"
  "sourceRef (stopSession c st) = None"
  by (simp_all add: stopSession_def Let_def setCurrentTranscription_def setConnectionState_def
      session_close_def console_put_def split: option.splits)

lemma stopSession_cells [simp]:
  "connectionState (stopSession c st) = DISCONNECTED"
  "currentTranscription (stopSession c st) = []"
  "messages (stopSession c st) = messages st"
  "errorMsg (stopSession c st) = errorMsg st"
  "connWrites (stopSession c st) = connWrites st @ [DISCONNECTED]"
  "length (transports (stopSession c st)) = length (transports st)"
  "length (streams (stopSession c st)) = length (streams st)"
  "sessionPromiseRef (stopSession c st) = sessionPromiseRef st"
  by (simp_all add: stopSession_def Let_def setCurrentTranscription_def setConnectionState_def
      session_close_def console_put_def split: option.splits)

lemma stopSession_idle:
  assumes "streamRef st = None" "sessionRef st = None" "frameIntervalRef st = None"
    "processorRef st = None" "sourceRef st = None"
  shows "stopSession c st =
    st\<lparr>connectionState := DISCONNECTED, currentTranscription := [],
       connWrites := connWrites st @ [DISCONNECTED]\<rparr>"
  using assms
  by (simp add: stopSession_def stopMediaProcessing_idle setCurrentTranscription_def
      setConnectionState_def)

lemma stopSession_twice:
  "stopSession c' (stopSession c st) =
   (stopSession c st)\<lparr>connWrites := connWrites (stopSession c st) @ [DISCONNECTED]\<rparr>"
proof -
  have "stopSession c' (stopSession c st) =
    (stopSession c st)\<lparr>connectionState := DISCONNECTED, currentTranscription := [],
       connWrites := connWrites (stopSession c st) @ [DISCONNECTED]\<rparr>"
    by (rule stopSession_idle) simp_all
  then show ?thesis by simp
qed

text \<open>
  Claim C4. From every state, \<^verbatim>\<open>stopSession\<close> ends with the connection state
  Disconnected and the pending buffer empty, leaves the list of Turns as it was, and
  nulls the references to the stream and the session. A second call in succession
  changes nothing: it only passes \<^verbatim>\<open>DISCONNECTED\<close> to \<^verbatim>\<open>setConnectionState\<close> once more,
  where that value already is, which the list of writes records. Called while
  Connecting, before any device or transport was acquired, it completes (the function
  has no raising path) and does nothing but these two writes.
\<close>

theorem stop_disconnects_and_keeps_history:
  "connectionState (stopSession c st) = DISCONNECTED \<and>
   currentTranscription (stopSession c st) = [] \<and>
   messages (stopSession c st) = messages st \<and>
   streamRef (stopSession c st) = None \<and>
   sessionRef (stopSession c st) = None \<and>
   stopSession c' (stopSession c st) =
     (stopSession c st)\<lparr>connWrites := connWrites (stopSession c st) @ [DISCONNECTED]\<rparr> \<and>
   (connectionState st = CONNECTING \<and> streamRef st = None \<and> sessionRef st = None \<and>
    frameIntervalRef st = None \<and> processorRef st = None \<and> sourceRef st = None \<longrightarrow>
      stopSession c st =
        st\<lparr>connectionState := DISCONNECTED, currentTranscription := [],
           connWrites := connWrites st @ [DISCONNECTED]\<rparr>)"
  using stopSession_twice [of c' c st] stopSession_idle [of st c] by simp

theorem stop_disconnects_and_keeps_history_witness:
  "connectionState connecting_state = CONNECTING \<and> streamRef connecting_state = None \<and>
   sessionRef connecting_state = None \<and> frameIntervalRef connecting_state = None \<and>
   processorRef connecting_state = None \<and> sourceRef connecting_state = None \<and>
   stopSession False connecting_state =
     connecting_state\<lparr>connectionState := DISCONNECTED, currentTranscription := [],
        connWrites := [CONNECTING, DISCONNECTED]\<rparr> \<and>
   connectionState (stopSession False connecting_state) = DISCONNECTED"
proof -
  have prem: "connectionState connecting_state = CONNECTING \<and> streamRef connecting_state = None \<and>
      sessionRef connecting_state = None \<and> frameIntervalRef connecting_state = None \<and>
      processorRef connecting_state = None \<and> sourceRef connecting_state = None \<and>
      connWrites connecting_state = [CONNECTING]"
    by code_simp
  from stop_disconnects_and_keeps_history [of False connecting_state False]
  show ?thesis using prem by simp
qed

section \<open>Starting a session\<close>

lemma start_failed_cells [simp]:
  "connectionState (start_failed c e st) = DISCONNECTED"
  "connWrites (start_failed c e st) = connWrites st @ [ERROR, DISCONNECTED]"
  "length (transports (start_failed c e st)) = length (transports st)"
  "length (streams (start_failed c e st)) = length (streams st)"
  "sessionPromiseRef (start_failed c e st) = sessionPromiseRef st"
  "errorMsg (start_failed c e st) =
     Some (if reason e = [] then ''Failed to access camera/microphone or connect.'' else reason e)"
  by (simp_all add: start_failed_def setErrorMsg_def setConnectionState_def console_put_def)

text \<open>
  Claim C7. When \<^verbatim>\<open>process.env.API_KEY\<close> is absent or empty, \<^verbatim>\<open>startSession\<close> fails with
  the message of the missing key: the only values it passes to \<^verbatim>\<open>setConnectionState\<close>
  are \<^verbatim>\<open>ERROR\<close> and then \<^verbatim>\<open>DISCONNECTED\<close>, never \<^verbatim>\<open>CONNECTING\<close>, and it requests no
  device and creates no transport.
\<close>

theorem missing_credential_fails_before_connecting:
  "\<not> truthy (API_KEY env) \<longrightarrow>
     connWrites (startSession env st) = connWrites st @ [ERROR, DISCONNECTED] \<and>
     connectionState (startSession env st) = DISCONNECTED \<and>
     errorMsg (startSession env st) =
       Some ''API Key is missing. Please check your deployment settings or .env file.'' \<and>
     length (transports (startSession env st)) = length (transports st) \<and>
     length (streams (startSession env st)) = length (streams st) \<and>
     sessionPromiseRef (startSession env st) = sessionPromiseRef st"
  by (simp add: startSession_def setErrorMsg_def)

theorem missing_credential_fails_before_connecting_witness:
  "\<not> truthy (API_KEY (granted\<lparr>API_KEY := None\<rparr>)) \<and>
   connWrites (startSession (granted\<lparr>API_KEY := None\<rparr>) initial_state) = [ERROR, DISCONNECTED] \<and>
   connectionState (startSession (granted\<lparr>API_KEY := None\<rparr>) initial_state) = DISCONNECTED \<and>
   transports (startSession (granted\<lparr>API_KEY := None\<rparr>) initial_state) = []"
proof -
  have prem: "\<not> truthy (API_KEY (granted\<lparr>API_KEY := None\<rparr>))"
    by (simp add: truthy_def)
  from missing_credential_fails_before_connecting [of "granted\<lparr>API_KEY := None\<rparr>" initial_state]
  show ?thesis using prem by (simp add: initial_state_def)
qed

text \<open>
  Claim C6 does not hold of the code. The \<^verbatim>\<open>catch\<close> block of \<^verbatim>\<open>startSession\<close> and the
  \<^verbatim>\<open>onerror\<close> callback both write \<^verbatim>\<open>ERROR\<close> and then call \<^verbatim>\<open>stopSession\<close>, whose last
  writes put \<^verbatim>\<open>DISCONNECTED\<close> over it: whatever the failure and the state, the
  component ends Disconnected. So it does when the device request of a first start is
  denied, and when the transport of an open session fails; the message of the error is
  kept.
\<close>

theorem failed_start_ends_disconnected:
  "connectionState (start_failed c e st) = DISCONNECTED \<and>
   connectionState (onerror c st) = DISCONNECTED \<and>
   connWrites (startSession denied initial_state) = [CONNECTING, ERROR, DISCONNECTED] \<and>
   connectionState (startSession denied initial_state) = DISCONNECTED \<and>
   errorMsg (startSession denied initial_state) = Some ''Permission denied'' \<and>
   connectionState (session_failed False 0 connected_state) = DISCONNECTED \<and>
   connWrites (session_failed False 0 connected_state) =
     [CONNECTING, CONNECTED, ERROR, DISCONNECTED]"
proof -
  have "connectionState (start_failed c e st) = DISCONNECTED" by simp
  moreover have "connectionState (onerror c st) = DISCONNECTED" by (simp add: onerror_def)
  moreover have "connWrites (startSession denied initial_state) = [CONNECTING, ERROR, DISCONNECTED] \<and>
   connectionState (startSession denied initial_state) = DISCONNECTED \<and>
   errorMsg (startSession denied initial_state) = Some ''Permission denied'' \<and>
   connectionState (session_failed False 0 connected_state) = DISCONNECTED \<and>
   connWrites (session_failed False 0 connected_state) =
     [CONNECTING, CONNECTED, ERROR, DISCONNECTED]"
    by code_simp
  ultimately show ?thesis by simp
qed

text \<open>
  Claim C8 does not hold of the code. \<^verbatim>\<open>startSession\<close> tests neither the connection
  state nor the references. Called again while the first session is Connecting, it
  acquires a second stream and opens a second transport; both transports open and are
  active together, the first stream is referenced by nothing, and \<^verbatim>\<open>stopSession\<close>
  closes only the second transport and stops only the second stream. The same happens
  when it is called while Connected.
\<close>

theorem second_start_opens_second_transport:
  "connectionState (startSession granted initial_state) = CONNECTING \<and>
   active_transports (startSession granted (startSession granted initial_state)) = 2 \<and>
   map status (transports started_twice) = [Open, Open] \<and>
   active_transports started_twice = 2 \<and>
   streams started_twice = [True, True] \<and>
   map status (transports (stopSession False started_twice)) = [Open, Closed] \<and>
   streams (stopSession False started_twice) = [True, False] \<and>
   connectionState connected_state = CONNECTED \<and>
   active_transports (startSession granted connected_state) = 2"
  by code_simp

section \<open>Mute\<close>

text \<open>
  Claim C5 does not hold of the code. \<^verbatim>\<open>onaudioprocess\<close> tests the \<^verbatim>\<open>isMuted\<close> of the
  render in which its session was started. In a session started unmuted, a block
  produced after the user has muted is sent all the same. In a session started while
  muted, a block produced after the user has unmuted is dropped.
\<close>

theorem mute_after_start_still_sends:
  "isMuted (toggleMute connected_state) \<and>
   outbox (transports (audio_block 0 False ''AAAA'' (toggleMute connected_state)) ! 0) =
     [\<lparr>mimeType = ''audio/pcm;rate=16000'', data = ''AAAA''\<rparr>] \<and>
   \<not> isMuted (toggleMute restarted_muted) \<and>
   sessionPromiseRef (toggleMute restarted_muted) = Some 1 \<and>
   outbox (transports (audio_block 1 False ''AAAA'' (toggleMute restarted_muted)) ! 1) = []"
  by code_simp

section \<open>Transport encoding\<close>

lemma alphabet_table:
  "\<forall>n \<in> set [0..<64]. char_sextet (sextet_char n) = Some n \<and> sextet_char n \<noteq> CHR ''=''"
  by code_simp

lemma sextet_roundtrip: "n < 64 \<Longrightarrow> char_sextet (sextet_char n) = Some n"
  using alphabet_table by simp

lemma sextet_not_pad: "n < 64 \<Longrightarrow> sextet_char n \<noteq> CHR ''=''"
  using alphabet_table by simp

lemma byte_bound: "unat (a :: byte) < 256"
  using unsigned_less [of a, where ?'a = nat] by simp

lemma sextets_recombine:
  fixes n :: nat
  shows "(n div 262144) * 262144 + (n div 4096 mod 64) * 4096 + (n div 64 mod 64) * 64 + n mod 64 = n"
proof -
  define q1 where "q1 = n div 64"
  define q2 where "q2 = q1 div 64"
  define q3 where "q3 = q2 div 64"
  have e2: "n div 4096 = q2" by (simp add: q2_def q1_def div_mult2_eq)
  have e3: "n div 262144 = q3" by (simp add: q3_def q2_def q1_def div_mult2_eq)
  have h1: "n = q1 * 64 + n mod 64" by (simp add: q1_def)
  have h2: "q1 = q2 * 64 + q1 mod 64" by (simp add: q2_def)
  have h3: "q2 = q3 * 64 + q2 mod 64" by (simp add: q3_def)
  define r1 where "r1 = n mod 64"
  define r2 where "r2 = q1 mod 64"
  define r3 where "r3 = q2 mod 64"
  have "q3 * 262144 + r3 * 4096 + r2 * 64 + r1 = n"
    using h1 h2 h3 unfolding r1_def [symmetric] r2_def [symmetric] r3_def [symmetric] by linarith
  then show ?thesis
    unfolding e2 e3 r1_def r2_def r3_def q1_def [symmetric] .
qed

lemma byte_parts:
  fixes a b c :: nat
  assumes "b < 256" "c < 256"
  shows "(a * 65536 + b * 256 + c) div 65536 = a"
    and "(a * 65536 + b * 256 + c) div 256 mod 256 = b"
    and "(a * 65536 + b * 256 + c) mod 256 = c"
proof -
  have low: "b * 256 + c < 65536" using assms by linarith
  have "(a * 65536 + (b * 256 + c)) div 65536 = a" using low by simp
  then show "(a * 65536 + b * 256 + c) div 65536 = a" by (simp add: add.assoc)
  have split: "(k * 256 + c) div 256 = k" "(k * 256 + c) mod 256 = c" for k
    using assms(2) by simp_all
  have eq: "a * 65536 + b * 256 + c = (a * 256 + b) * 256 + c" by simp
  have "(a * 65536 + b * 256 + c) div 256 = a * 256 + b"
    unfolding eq by (rule split)
  then show "(a * 65536 + b * 256 + c) div 256 mod 256 = b" using assms(1) by simp
  show "(a * 65536 + b * 256 + c) mod 256 = c"
    unfolding eq by (rule split)
qed

lemma sextet_bounds:
  fixes a b c :: nat
  assumes "a < 256" "b < 256" "c < 256"
  shows "(a * 65536 + b * 256 + c) div 262144 < 64"
proof -
  have "a * 65536 + b * 256 + c < 64 * 262144" using assms by linarith
  then show ?thesis by (simp add: less_mult_imp_div_less)
qed

lemma roundtrip3:
  fixes a b c :: byte
  defines "n \<equiv> unat a * 65536 + unat b * 256 + unat c"
  shows "base64ToUint8Array (sextet_char (n div 262144) # sextet_char (n div 4096 mod 64) #
          sextet_char (n div 64 mod 64) # sextet_char (n mod 64) # cs) =
         (case base64ToUint8Array cs of Inl e \<Rightarrow> Inl e | Inr bs \<Rightarrow> Inr (a # b # c # bs))"
proof -
  have b: "unat a < 256" "unat b < 256" "unat c < 256" by (rule byte_bound)+
  have s1: "n div 262144 < 64" unfolding n_def using b by (rule sextet_bounds)
  have parts: "n div 65536 = unat a" "n div 256 mod 256 = unat b" "n mod 256 = unat c"
    unfolding n_def using b by (simp_all add: byte_parts)
  show ?thesis
    by (cases "base64ToUint8Array cs")
      (simp_all add: sextet_roundtrip sextet_not_pad s1 sextets_recombine parts)
qed


lemma roundtrip1:
  fixes a :: byte
  defines "n \<equiv> unat a * 65536"
  shows "base64ToUint8Array [sextet_char (n div 262144), sextet_char (n div 4096 mod 64),
           CHR ''='', CHR ''=''] = Inr [a]"
proof -
  have b: "unat a < 256" by (rule byte_bound)
  have s1: "n div 262144 < 64"
    using sextet_bounds [of "unat a" 0 0] b by (simp add: n_def)
  have z: "n div 64 mod 64 = 0" "n mod 64 = 0"
  proof -
    have eq: "n = (unat a * 1024) * 64" by (simp add: n_def)
    show "n div 64 mod 64 = 0" unfolding eq by simp
    show "n mod 64 = 0" unfolding eq by simp
  qed
  have "(n div 262144) * 262144 + (n div 4096 mod 64) * 4096 = n"
    using sextets_recombine [of n] z by simp
  moreover have "n div 65536 = unat a" by (simp add: n_def)
  ultimately show ?thesis
    by (simp add: sextet_roundtrip sextet_not_pad s1)
qed

lemma roundtrip2:
  fixes a b :: byte
  defines "n \<equiv> unat a * 65536 + unat b * 256"
  shows "base64ToUint8Array [sextet_char (n div 262144), sextet_char (n div 4096 mod 64),
           sextet_char (n div 64 mod 64), CHR ''=''] = Inr [a, b]"
proof -
  have b: "unat a < 256" "unat b < 256" by (rule byte_bound)+
  have s1: "n div 262144 < 64"
    using sextet_bounds [of "unat a" "unat b" 0] b by (simp add: n_def)
  have z: "n mod 64 = 0"
  proof -
    have eq: "n = (unat a * 1024 + unat b * 4) * 64" by (simp add: n_def)
    show ?thesis unfolding eq by simp
  qed
  have "(n div 262144) * 262144 + (n div 4096 mod 64) * 4096 + (n div 64 mod 64) * 64 = n"
    using sextets_recombine [of n] z by simp
  moreover have "n div 65536 = unat a" "n div 256 mod 256 = unat b"
    using byte_parts [of "unat b" 0 "unat a"] b by (simp_all add: n_def)
  ultimately show ?thesis
    by (simp add: sextet_roundtrip sextet_not_pad s1)
qed

text \<open>
  Claim C10. Decoding the encoding of a byte sequence gives the byte sequence back:
  \<^verbatim>\<open>base64ToBytes(bytesToBase64(b)) == b\<close> for every \<open>b\<close>.
\<close>

theorem base64_roundtrip: "base64ToUint8Array (uint8ArrayToBase64 bs) = Inr bs"
proof (induction bs rule: uint8ArrayToBase64.induct)
  case 1
  show ?case by simp
next
  case (2 a)
  show ?case using roundtrip1 [of a] by (simp add: Let_def)
next
  case (3 a b)
  show ?case using roundtrip2 [of a b] by (simp add: Let_def)
next
  case (4 a b c bs)
  show ?case using roundtrip3 [of a b c "uint8ArrayToBase64 bs"] 4 by (simp add: Let_def)
qed

end
